theory Spec2Isabelle
  imports Main
begin

section \<open>Python values\<close>

text \<open>
  A Python \<open>str\<close> is a sequence of Unicode code points; a code point is a natural number.
  \<open>py\<close> turns an ASCII literal into such a sequence.
\<close>

type_synonym pystr = "nat list"

definition py :: "string \<Rightarrow> pystr" where
  "py s = map of_char s"

text \<open>
  The values that \<open>json.loads\<close> and \<open>request.get_json\<close> produce. A float is a finite
  binary fraction \<open>m * 2^e\<close>, an infinity (with its sign) or a NaN. A \<open>dict\<close> is an association
  list whose keys are all different; \<open>dict.get\<close> looks a key up in it.
\<close>

datatype pyfloat = Finite int int | Infinite bool | NaN

datatype pyval =
    PyNone
  | PyBool bool
  | PyInt int
  | PyFloat pyfloat
  | PyStr pystr
  | PyList "pyval list"
  | PyDict "(pystr \<times> pyval) list"

fun truthy :: "pyval \<Rightarrow> bool" where
  "truthy PyNone = False"
| "truthy (PyBool b) = b"
| "truthy (PyInt i) = (i \<noteq> 0)"
| "truthy (PyFloat (Finite m e)) = (m \<noteq> 0)"
| "truthy (PyFloat (Infinite s)) = True"
| "truthy (PyFloat NaN) = True"
| "truthy (PyStr s) = (s \<noteq> [])"
| "truthy (PyList xs) = (xs \<noteq> [])"
| "truthy (PyDict kvs) = (kvs \<noteq> [])"

definition dict_get :: "(pystr \<times> pyval) list \<Rightarrow> pystr \<Rightarrow> pyval \<Rightarrow> pyval" where
  "dict_get d k dflt = (case map_of d k of Some v \<Rightarrow> v | None \<Rightarrow> dflt)"

text \<open>The name of a value's type, as it appears in the text of an \<open>AttributeError\<close>.\<close>

fun type_name :: "pyval \<Rightarrow> pystr" where
  "type_name PyNone = py ''NoneType''"
| "type_name (PyBool b) = py ''bool''"
| "type_name (PyInt i) = py ''int''"
| "type_name (PyFloat f) = py ''float''"
| "type_name (PyStr s) = py ''str''"
| "type_name (PyList xs) = py ''list''"
| "type_name (PyDict kvs) = py ''dict''"

definition no_attribute :: "pyval \<Rightarrow> string \<Rightarrow> pystr" where
  "no_attribute v a = [39] @ type_name v @ [39] @ py '' object has no attribute '' @ [39] @ py a @ [39]"

section \<open>The environment of the endpoints\<close>

text \<open>
  One request to \<open>client.chat.completions.create\<close>: the model, the messages (role and
  content), the token cap and the temperature.
\<close>

record chat_request =
  cr_model :: pyval
  cr_messages :: "(pystr \<times> pystr) list"
  cr_max_tokens :: nat
  cr_temperature :: pyfloat

text \<open>
  What the endpoints use and the repository does not define: the Unicode tables of the
  Python runtime beyond ASCII, \<open>json.loads\<close>, \<open>str()\<close> of a value, and the remote model.
  \<^item> \<open>uni_alnum c\<close>: \<open>str.isalnum\<close> of a code point \<open>c \<ge> 128\<close>;
  \<^item> \<open>uni_upper s\<close>, \<open>uni_lower s\<close>: \<open>s.upper()\<close> and \<open>s.lower()\<close> of a string that has a
    code point \<open>\<ge> 128\<close> (on ASCII strings the mapping is written out below);
  \<^item> \<open>json_loads s\<close>: the parsed value, or \<open>None\<close> for \<open>json.JSONDecodeError\<close>;
  \<^item> \<open>py_str v\<close>: \<open>str(v)\<close>;
  \<^item> \<open>chat_create r\<close>: \<open>Inl msg\<close> when the call raises an exception whose text is \<open>msg\<close>,
    \<open>Inr content\<close> when it returns, \<open>content\<close> being \<open>choices[0].message.content\<close>
    (a string, or \<open>None\<close>).
  The theorems below are stated for an arbitrary environment; only the examples fix one.
\<close>

record env =
  uni_alnum :: "nat \<Rightarrow> bool"
  uni_upper :: "pystr \<Rightarrow> pystr"
  uni_lower :: "pystr \<Rightarrow> pystr"
  json_loads :: "pystr \<Rightarrow> pyval option"
  py_str :: "pyval \<Rightarrow> pystr"
  chat_create :: "chat_request \<Rightarrow> pystr + pystr option"

section \<open>Character classes\<close>

definition ascii_letter :: "nat \<Rightarrow> bool" where
  "ascii_letter c = ((65 \<le> c \<and> c \<le> 90) \<or> (97 \<le> c \<and> c \<le> 122))"

definition ascii_digit :: "nat \<Rightarrow> bool" where
  "ascii_digit c = (48 \<le> c \<and> c \<le> 57)"

text \<open>
  Whitespace, for \<open>\s\<close> in a \<open>str\<close> pattern and for \<open>str.strip\<close> and \<open>str.split\<close> alike:
  U+0009..U+000D, U+001C..U+0020, U+0085, U+00A0, U+1680, U+2000..U+200A, U+2028, U+2029,
  U+202F, U+205F, U+3000.
\<close>

definition is_space :: "nat \<Rightarrow> bool" where
  "is_space c = ((9 \<le> c \<and> c \<le> 13) \<or> (28 \<le> c \<and> c \<le> 32) \<or> c = 133 \<or> c = 160 \<or> c = 5760
     \<or> (8192 \<le> c \<and> c \<le> 8202) \<or> c = 8232 \<or> c = 8233 \<or> c = 8239 \<or> c = 8287 \<or> c = 12288)"

abbreviation non_space :: "nat \<Rightarrow> bool" where
  "non_space \<equiv> (\<lambda>c. \<not> is_space c)"

text \<open>\<open>\w\<close> in a \<open>str\<close> pattern: an alphanumeric code point or the underscore.\<close>

definition is_word :: "env \<Rightarrow> nat \<Rightarrow> bool" where
  "is_word E c = (if c < 128 then ascii_letter c \<or> ascii_digit c \<or> c = 95 else uni_alnum E c)"

section \<open>String operations\<close>

definition startswith :: "pystr \<Rightarrow> pystr \<Rightarrow> bool" where
  "startswith s p = (take (length p) s = p)"

text \<open>\<open>sub in s\<close>\<close>

fun str_contains :: "pystr \<Rightarrow> pystr \<Rightarrow> bool" where
  "str_contains sub [] = (sub = [])"
| "str_contains sub (c # cs) = (startswith (c # cs) sub \<or> str_contains sub cs)"

section \<open>The Pre-check\<close>

text \<open>
  \<open>precheck_name\<close> is the same function in \<open>app-precheck.py\<close> and in
  \<open>app-precheck-prompt-enhanment.py\<close>, but for the text of the reasons: four tests in the
  same order. The reasons are a datatype here, and each file has its table of texts.
\<close>

datatype reason = InvalidCharacters | TooFewLetters | ConsecutivePunctuation | InvalidDotFormatting

fun reason_text :: "reason \<Rightarrow> pystr" where
  "reason_text InvalidCharacters = py ''Invalid characters present''"
| "reason_text TooFewLetters = py ''Too few letters''"
| "reason_text ConsecutivePunctuation = py ''Consecutive punctuation''"
| "reason_text InvalidDotFormatting = py ''Invalid dot formatting, must have spaces after dot(.)''"

fun reason_text_enh :: "reason \<Rightarrow> pystr" where
  "reason_text_enh InvalidCharacters = py ''Invalid characters''"
| "reason_text_enh TooFewLetters = py ''Too few letters''"
| "reason_text_enh ConsecutivePunctuation = py ''Consecutive punctuation''"
| "reason_text_enh InvalidDotFormatting = py ''Invalid dot formatting''"

text \<open>\<open>re.search(r"[^A-Za-z\s\-.]", name)\<close> finds something.\<close>

definition invalid_chars :: "pystr \<Rightarrow> bool" where
  "invalid_chars name = list_ex (\<lambda>c. \<not> (ascii_letter c \<or> is_space c \<or> c = 45 \<or> c = 46)) name"

text \<open>\<open>re.findall(r"[A-Za-z]", name)\<close>\<close>

definition letters :: "pystr \<Rightarrow> pystr" where
  "letters name = filter ascii_letter name"

text \<open>\<open>'--' in name or '..' in name\<close>\<close>

definition consecutive_punct :: "pystr \<Rightarrow> bool" where
  "consecutive_punct name = (str_contains (py ''--'') name \<or> str_contains (py ''..'') name)"

text \<open>
  \<open>re.search(r"(?<=\w)\.(?=\w)", name)\<close> finds something: the scan looks at each period
  with the character before it and the character after it.
\<close>

fun dot_between_words :: "env \<Rightarrow> pystr \<Rightarrow> bool" where
  "dot_between_words E (a # b # c # cs) =
     ((is_word E a \<and> b = 46 \<and> is_word E c) \<or> dot_between_words E (b # c # cs))"
| "dot_between_words E cs = False"

definition precheck_name :: "env \<Rightarrow> pystr \<Rightarrow> bool \<times> reason option" where
  "precheck_name E name =
     (if invalid_chars name then (False, Some InvalidCharacters)
      else if length (letters name) < 3 then (False, Some TooFewLetters)
      else if consecutive_punct name then (False, Some ConsecutivePunctuation)
      else if dot_between_words E name then (False, Some InvalidDotFormatting)
      else (True, None))"

text \<open>
  The rules as the specification lists them: an ordered table of reason and test, of which
  the first test that fails gives the result.
\<close>

definition rule_table :: "env \<Rightarrow> (reason \<times> (pystr \<Rightarrow> bool)) list" where
  "rule_table E =
     [(InvalidCharacters, invalid_chars),
      (TooFewLetters, \<lambda>name. length (letters name) < 3),
      (ConsecutivePunctuation, consecutive_punct),
      (InvalidDotFormatting, dot_between_words E)]"

definition first_failing :: "env \<Rightarrow> pystr \<Rightarrow> bool \<times> reason option" where
  "first_failing E name =
     (case find (\<lambda>(r, fails). fails name) (rule_table E) of
        None \<Rightarrow> (True, None)
      | Some (r, fails) \<Rightarrow> (False, Some r))"

section \<open>Normalization\<close>

text \<open>\<open>s.strip()\<close>\<close>

definition str_strip :: "pystr \<Rightarrow> pystr" where
  "str_strip s = rev (dropWhile is_space (rev (dropWhile is_space s)))"

text \<open>\<open>re.sub(r'\s+', ' ', s)\<close>: every maximal run of whitespace becomes one space.\<close>

function re_sub_spaces :: "pystr \<Rightarrow> pystr" where
  "re_sub_spaces [] = []"
| "re_sub_spaces (c # cs) =
     (if is_space c then 32 # re_sub_spaces (dropWhile is_space cs) else c # re_sub_spaces cs)"
  by pat_completeness auto
termination
  by (relation "measure length") (auto simp: length_dropWhile_le less_Suc_eq_le)

text \<open>\<open>s.split()\<close>: the maximal runs of characters that are not whitespace.\<close>

function str_split :: "pystr \<Rightarrow> pystr list" where
  "str_split [] = []"
| "str_split (c # cs) =
     (if is_space c then str_split cs
      else (c # takeWhile non_space cs) # str_split (dropWhile non_space cs))"
  by pat_completeness auto
termination
  by (relation "measure length") (auto simp: length_dropWhile_le less_Suc_eq_le)

text \<open>\<open>sep.join(ws)\<close>\<close>

fun str_join :: "pystr \<Rightarrow> pystr list \<Rightarrow> pystr" where
  "str_join sep [] = []"
| "str_join sep [w] = w"
| "str_join sep (w # v # ws) = w @ sep @ str_join sep (v # ws)"

definition ascii_upper :: "nat \<Rightarrow> nat" where
  "ascii_upper c = (if 97 \<le> c \<and> c \<le> 122 then c - 32 else c)"

definition ascii_lower :: "nat \<Rightarrow> nat" where
  "ascii_lower c = (if 65 \<le> c \<and> c \<le> 90 then c + 32 else c)"

definition is_ascii :: "pystr \<Rightarrow> bool" where
  "is_ascii s = list_all (\<lambda>c. c < 128) s"

text \<open>Every character of the string that is not whitespace is an ASCII character.\<close>

definition words_ascii :: "pystr \<Rightarrow> bool" where
  "words_ascii s = list_all (\<lambda>c. c < 128 \<or> is_space c) s"

text \<open>\<open>s.upper()\<close> and \<open>s.lower()\<close>\<close>

definition str_upper :: "env \<Rightarrow> pystr \<Rightarrow> pystr" where
  "str_upper E s = (if is_ascii s then map ascii_upper s else uni_upper E s)"

definition str_lower :: "env \<Rightarrow> pystr \<Rightarrow> pystr" where
  "str_lower E s = (if is_ascii s then map ascii_lower s else uni_lower E s)"

text \<open>\<open>word[:1].upper() + word[1:].lower()\<close>\<close>

definition capitalize_word :: "env \<Rightarrow> pystr \<Rightarrow> pystr" where
  "capitalize_word E word = str_upper E (take 1 word) @ str_lower E (drop 1 word)"

text \<open>
  The three endpoints bring the submitted name into a normal form in their first lines.
  \<open>app-precheck.py\<close>: strip, collapse the whitespace, strip, capitalize every word.
\<close>

definition normalize_name :: "env \<Rightarrow> pystr \<Rightarrow> pystr" where
  "normalize_name E raw =
     (let name = str_strip raw;
          name = str_strip (re_sub_spaces name)
      in str_join [32] (map (capitalize_word E) (str_split name)))"

text \<open>\<open>app.py\<close>: strip, collapse the whitespace, strip.\<close>

definition normalize_app :: "pystr \<Rightarrow> pystr" where
  "normalize_app raw = str_strip (re_sub_spaces (str_strip raw))"

text \<open>\<open>app-precheck-prompt-enhanment.py\<close>: strip, collapse the whitespace, capitalize every word.\<close>

definition normalize_enh :: "env \<Rightarrow> pystr \<Rightarrow> pystr" where
  "normalize_enh E raw =
     (let name = str_strip raw;
          name = re_sub_spaces name
      in str_join [32] (map (capitalize_word E) (str_split name)))"

section \<open>Extracting the JSON payload of a reply\<close>

text \<open>
  \<open>re.search(r"```json\s*({.*?})\s*```", text, re.DOTALL | re.IGNORECASE)\<close>.

  \<open>fence_open\<close> matches the seven characters of the opening fence and gives the rest of
  the text. Under \<open>IGNORECASE\<close> each letter also matches its upper case, and \<open>s\<close> also
  matches U+017F (the long s).
\<close>

fun fence_open :: "pystr \<Rightarrow> pystr option" where
  "fence_open (b1 # b2 # b3 # cj # cs # co # cn # rest) =
     (if b1 = 96 \<and> b2 = 96 \<and> b3 = 96 \<and> (cj = 106 \<or> cj = 74) \<and> (cs = 115 \<or> cs = 83 \<or> cs = 383)
         \<and> (co = 111 \<or> co = 79) \<and> (cn = 110 \<or> cn = 78)
      then Some rest else None)"
| "fence_open t = None"

text \<open>
  \<open>.*?}\s*```\<close> after the opening brace: the lazy \<open>.*?\<close> (which, under \<open>DOTALL\<close>, takes any
  character) stops at the first closing brace that is followed by whitespace and a fence.
  The greedy \<open>\s*\<close> takes the whole run of whitespace, for a fence cannot start with a
  whitespace character. The result is the group up to and including that brace.
\<close>

abbreviation fence :: pystr where
  "fence \<equiv> [96, 96, 96]"

fun lazy_body :: "pystr \<Rightarrow> pystr option" where
  "lazy_body [] = None"
| "lazy_body (c # cs) =
     (if c = 125 \<and> startswith (dropWhile is_space cs) fence then Some [c]
      else map_option ((#) c) (lazy_body cs))"

text \<open>
  The pattern matched at the start of \<open>t\<close>: the opening fence, the whole run of whitespace
  (an opening brace is not whitespace either), the brace and the body. The result is group 1.
\<close>

definition fence_at :: "pystr \<Rightarrow> pystr option" where
  "fence_at t =
     (case fence_open t of
        None \<Rightarrow> None
      | Some rest \<Rightarrow>
          (case dropWhile is_space rest of
             [] \<Rightarrow> None
           | c # cs \<Rightarrow> if c = 123 then map_option ((#) c) (lazy_body cs) else None))"

text \<open>\<open>re.search\<close> tries the start positions from left to right.\<close>

fun fence_search :: "pystr \<Rightarrow> pystr option" where
  "fence_search [] = None"
| "fence_search (c # cs) =
     (case fence_at (c # cs) of Some g \<Rightarrow> Some g | None \<Rightarrow> fence_search cs)"

text \<open>
  Some closing brace of the text is followed, whitespace apart, by three backquotes: the
  place where the lazy body of the pattern can stop.
\<close>

fun brace_fence :: "pystr \<Rightarrow> bool" where
  "brace_fence [] = False"
| "brace_fence (c # cs) = ((c = 125 \<and> startswith (dropWhile is_space cs) fence) \<or> brace_fence cs)"

definition endswith :: "pystr \<Rightarrow> pystr \<Rightarrow> bool" where
  "endswith s p = startswith (rev s) (rev p)"

text \<open>\<open>extract_json_from_response\<close> of \<open>app.py\<close>\<close>

definition extract_json_from_response :: "pystr \<Rightarrow> pystr" where
  "extract_json_from_response text =
     (case fence_search text of
        Some g \<Rightarrow> g
      | None \<Rightarrow>
          (let text = str_strip text
           in if startswith text [123] \<and> endswith text [125] then text else text))"

text \<open>An opening fence somewhere in the text.\<close>

fun has_fence_open :: "pystr \<Rightarrow> bool" where
  "has_fence_open [] = False"
| "has_fence_open (c # cs) = (fence_open (c # cs) \<noteq> None \<or> has_fence_open cs)"

text \<open>A payload between an opening fence, whitespace, whitespace and a closing fence.\<close>

definition fenced :: "pystr \<Rightarrow> pystr \<Rightarrow> pystr \<Rightarrow> pystr \<Rightarrow> pystr" where
  "fenced tag ws1 p ws2 = tag @ ws1 @ p @ ws2 @ fence"

section \<open>The endpoints\<close>

text \<open>
  What \<open>predict\<close> gives: a response (the status and the dictionary passed to \<open>jsonify\<close>),
  or an exception that leaves the function. Beside it the model keeps the list of the
  requests sent to the remote model.
\<close>

datatype outcome = Reply nat "(pystr \<times> pyval) list" | Unhandled

definition VALID_MODELS :: "pystr list" where
  "VALID_MODELS = [py ''gpt-4.1'', py ''gpt-4.1-mini'', py ''gpt-4.1-nano'', py ''gpt-4o-mini'']"

definition error_reply :: "nat \<Rightarrow> pystr \<Rightarrow> outcome" where
  "error_reply status msg = Reply status [(py ''error'', PyStr msg)]"

definition invalid_model_text :: pystr where
  "invalid_model_text =
     py ''Invalid model. Choose from ['gpt-4.1', 'gpt-4.1-mini', 'gpt-4.1-nano', 'gpt-4o-mini']''"

definition system_text :: pystr where
  "system_text = py ''You are a precise name classification assistant outputting only JSON.''"

definition prompt :: "pystr \<Rightarrow> pystr" where
  \<open>prompt name =
     [10]
     @ py ''        You are an expert in name classification. Determine if the name ''
     @ [39] @ name @ [39]
     @ py '' is realistic human name. Single-word names are allowed. Ignore the case.''
     @ [10]
     @ py ''        Examples of realistic names: 'Mst Nodi', 'Md Hafijul', 'Mst Taslima', 'Mr. Hanif Uddin', 'Beauty','Md Jewel', 'Mst Sonia''
     @ [39, 10]
     @ py ''               ''
     @ [10]
     @ py ''        Respond only with JSON:''
     @ [10]
     @ py ''        - Realistic: {"prediction":"Realistic"}''
     @ [10]
     @ py ''        - Not Realistic: {"prediction":"Not Realistic","reason":"<''
     @ [8804] @ py ''50'' @ [8209] @ py ''char reason>"}''
     @ [10]
     @ py ''        ''\<close>

definition prompt_app :: "pystr \<Rightarrow> pystr" where
  \<open>prompt_app name =
     [10]
     @ py ''        You are an expert in name classification. Determine if the full name ''
     @ [39] @ name @ [39]
     @ py '' is a realistic human full name, used in any culture. Consider the name regardless of its capitalization.''
     @ [10, 10]
     @ py ''        A full name is considered unrealistic if:''
     @ [10]
     @ py ''        * It contains characters other than letters (a-z, A-Z), spaces, hyphens (-), and dots (.).''
     @ [10]
     @ py ''        * It has fewer than three letters in total (excluding spaces, hyphens, and dots). For example, 'Ku' has two letters and is unrealistic.''
     @ [10]
     @ py ''        * It contains consecutive hyphens (e.g., '--') or consecutive dots (e.g., '..').''
     @ [10]
     @ py ''        * It has a dot ('.') without spaces around it, resembling an email address or username (e.g., 'm.ahmed', 'Ravi.kumar').''
     @ [10]
     @ py ''        * It is a single word without a clear first and last name, unless it is a widely recognized full name in a specific culture. For example, 'Baba' is a single word and unrealistic, while 'Leonardo da Vinci' is realistic.''
     @ [10, 10]
     @ py ''        Examples of realistic full names: 'Mohiuddin Mohi', 'Aisha Khan', 'Sheik Kaykaus', 'Mr. Hanif Uddin', 'John-Doe', 'Mary. Anne Smith', 'm. a. h. hashan', 'p. k. robi mullah', 'Leonardo da Vinci'.''
     @ [10]
     @ py ''        Examples of unrealistic names: 'Ku' (too short), 'Ghi' (single word), 'Baba' (single word), 'Vut' (single word), 'San' (single word), 'TUTU' (single word), 'Ami' (single word), 'Ash' (single word), 'Nono' (single word), 'Pon' (single word), 'Nav' (single word), 'Sisi' (single word), 'Wert' (keyboard pattern), 'Ji' (too short), 'Zaza' (single word), 'Li' (too short), 'Jahanara--Begum' (consecutive hyphens), 'Fu' (too short), 'PAPA' (single word), 'Dede' (single word), 'Abdullah123' (contains numbers), 'Table Chair' (common phrase), 'Qwert' (keyboard pattern), 'Abdullah' (single word).''
     @ [10, 10]
     @ py ''        Respond in JSON format. If the full name is 'Realistic', the JSON should only contain:''
     @ [10]
     @ py ''        {''
     @ [10]
     @ py ''            "prediction": "Realistic"''
     @ [10]
     @ py ''        }''
     @ [10]
     @ py ''        If the name is 'Not Realistic', the JSON should contain:''
     @ [10]
     @ py ''        {''
     @ [10]
     @ py ''            "prediction": "Not Realistic",''
     @ [10]
     @ py ''            "reason": "<brief reason (max 50 character) why the name is not realistic>"''
     @ [10]
     @ py ''        }''
     @ [10]
     @ py ''        ''\<close>

definition prompt_enh :: "pystr \<Rightarrow> pystr" where
  \<open>prompt_enh name =
     py ''Classify '' @ [39] @ name @ [39]
     @ py '' as a realistic human name (single-word OK). Return only 1 or 0.''\<close>

text \<open>
  The block that parses the extracted text and builds the verdict (lines 115 to 136 of
  \<open>app-precheck.py\<close>, lines 146 to 170 of \<open>app.py\<close>). \<open>result.get\<close> on a value that is not
  a \<open>dict\<close> raises an \<open>AttributeError\<close>, which only the handler of the remote call catches.
\<close>

definition json_verdict :: "env \<Rightarrow> pystr \<Rightarrow> pystr \<Rightarrow> outcome" where
  "json_verdict E name json_str =
     (case json_loads E json_str of
        None \<Rightarrow> error_reply 500 (py ''Invalid JSON response format from model'')
      | Some result \<Rightarrow>
          (case result of
             PyDict d \<Rightarrow>
               (let pred = dict_get d (py ''prediction'') PyNone
                in if pred \<notin> set [PyStr (py ''Realistic''), PyStr (py ''Not Realistic'')]
                   then error_reply 500 (py ''Invalid prediction value from model: '' @ py_str E pred)
                   else if pred = PyStr (py ''Realistic'')
                   then Reply 200 [(py ''name'', PyStr name),
                                   (py ''prediction'', PyStr (py ''Realistic''))]
                   else Reply 200 [(py ''name'', PyStr name),
                                   (py ''prediction'', PyStr (py ''Not Realistic'')),
                                   (py ''reason'',
                                    dict_get d (py ''reason'') (PyStr (py ''Reason not provided by AI.'')))])
           | _ \<Rightarrow> error_reply 500 (py ''OpenAI API error: '' @ no_attribute result ''get'')))"

text \<open>
  The remote call and what follows it. \<open>extract\<close> is the way the file takes the JSON text
  out of the stripped reply.
\<close>

definition remote_outcome :: "env \<Rightarrow> pystr \<Rightarrow> chat_request \<Rightarrow> (pystr \<Rightarrow> pystr) \<Rightarrow> outcome" where
  "remote_outcome E name req extract =
     (case chat_create E req of
        Inl msg \<Rightarrow> error_reply 500 (py ''OpenAI API error: '' @ msg)
      | Inr None \<Rightarrow> error_reply 500 (py ''OpenAI API error: '' @ no_attribute PyNone ''strip'')
      | Inr (Some content) \<Rightarrow> json_verdict E name (extract (str_strip content)))"

definition server_error :: outcome where
  "server_error = error_reply 500 (py ''An unexpected server error occurred'')"

subsection \<open>\<open>app-precheck.py\<close>\<close>

text \<open>\<open>match.group(1) if match else reply_content\<close>\<close>

definition inline_extract :: "pystr \<Rightarrow> pystr" where
  "inline_extract reply_content =
     (case fence_search reply_content of Some g \<Rightarrow> g | None \<Rightarrow> reply_content)"

definition request :: "pyval \<Rightarrow> pystr \<Rightarrow> chat_request" where
  "request model name =
     \<lparr>cr_model = model,
      cr_messages = [(py ''system'', system_text), (py ''user'', prompt name)],
      cr_max_tokens = 60,
      cr_temperature = Finite 0 0\<rparr>"

definition predict :: "env \<Rightarrow> pyval \<Rightarrow> outcome \<times> chat_request list" where
  "predict E data =
     (if \<not> truthy data then (error_reply 400 (py ''Invalid JSON payload''), [])
      else case data of
        PyDict d \<Rightarrow>
          (case dict_get d (py ''name'') (PyStr []) of
             PyStr raw \<Rightarrow>
               (let model = dict_get d (py ''model'') (PyStr (py ''gpt-4.1-nano''));
                    name = normalize_name E raw
                in if name = [] then (error_reply 400 (py ''No name provided''), [])
                   else
                     (let (valid, reason) = precheck_name E name
                      in if \<not> valid
                         then (Reply 200 [(py ''name'', PyStr name),
                                          (py ''prediction'', PyStr (py ''Not Realistic'')),
                                          (py ''reason'',
                                           case reason of None \<Rightarrow> PyNone
                                           | Some r \<Rightarrow> PyStr (reason_text r))], [])
                         else if model \<notin> set (map PyStr VALID_MODELS)
                         then (error_reply 400 invalid_model_text, [])
                         else (remote_outcome E name (request model name) inline_extract,
                               [request model name])))
           | _ \<Rightarrow> (server_error, []))
      | _ \<Rightarrow> (server_error, []))"

subsection \<open>\<open>app.py\<close>\<close>

definition request_app :: "pyval \<Rightarrow> pystr \<Rightarrow> chat_request" where
  "request_app model name =
     \<lparr>cr_model = model,
      cr_messages = [(py ''system'', system_text), (py ''user'', prompt_app name)],
      cr_max_tokens = 60,
      cr_temperature = Finite 1 (- 1)\<rparr>"

definition predict_app :: "env \<Rightarrow> pyval \<Rightarrow> outcome \<times> chat_request list" where
  "predict_app E data =
     (if \<not> truthy data then (error_reply 400 (py ''Invalid JSON payload''), [])
      else case data of
        PyDict d \<Rightarrow>
          (case dict_get d (py ''name'') (PyStr []) of
             PyStr raw \<Rightarrow>
               (let model = dict_get d (py ''model'') (PyStr (py ''gpt-4.1-nano''));
                    name = normalize_app raw
                in if name = [] then (error_reply 400 (py ''No name provided''), [])
                   else if model \<notin> set (map PyStr VALID_MODELS)
                   then (error_reply 400 invalid_model_text, [])
                   else (remote_outcome E name (request_app model name) extract_json_from_response,
                         [request_app model name]))
           | _ \<Rightarrow> (server_error, []))
      | _ \<Rightarrow> (server_error, []))"

subsection \<open>\<open>app-precheck-prompt-enhanment.py\<close>\<close>

text \<open>
  This endpoint has no handler around its first lines: an exception there leaves the
  function. The remote model answers with a digit.
\<close>

definition request_enh :: "pyval \<Rightarrow> pystr \<Rightarrow> chat_request" where
  "request_enh model name =
     \<lparr>cr_model = model,
      cr_messages = [(py ''user'', prompt_enh name)],
      cr_max_tokens = 1,
      cr_temperature = Finite 0 0\<rparr>"

definition digit_outcome :: "env \<Rightarrow> pystr \<Rightarrow> chat_request \<Rightarrow> outcome" where
  "digit_outcome E name req =
     (case chat_create E req of
        Inl msg \<Rightarrow> error_reply 500 (py ''OpenAI API error'')
      | Inr None \<Rightarrow> error_reply 500 (py ''OpenAI API error'')
      | Inr (Some content) \<Rightarrow>
          (let reply = str_strip content;
               digit = take 1 reply
           in if digit = py ''1''
              then Reply 200 [(py ''name'', PyStr name), (py ''prediction'', PyStr (py ''Realistic''))]
              else if digit = py ''0''
              then Reply 200 [(py ''name'', PyStr name), (py ''prediction'', PyStr (py ''Not Realistic''))]
              else error_reply 500 (py ''Invalid response from model'')))"

definition predict_enh :: "env \<Rightarrow> pyval \<Rightarrow> outcome \<times> chat_request list" where
  "predict_enh E json =
     (let data = (if truthy json then json else PyDict [])
      in case data of
        PyDict d \<Rightarrow>
          (case dict_get d (py ''name'') (PyStr []) of
             PyStr raw \<Rightarrow>
               (let model = dict_get d (py ''model'') (PyStr (py ''gpt-4o-mini''));
                    name = normalize_enh E raw
                in if name = [] then (error_reply 400 (py ''No name provided''), [])
                   else if model \<notin> set (map PyStr VALID_MODELS)
                   then (error_reply 400 invalid_model_text, [])
                   else
                     (let (valid, reason) = precheck_name E name
                      in if \<not> valid
                         then (Reply 200 [(py ''name'', PyStr name),
                                          (py ''prediction'', PyStr (py ''Not Realistic''))], [])
                         else (digit_outcome E name (request_enh model name),
                               [request_enh model name])))
           | _ \<Rightarrow> (Unhandled, []))
      | _ \<Rightarrow> (Unhandled, []))"

section \<open>An environment for the examples\<close>

text \<open>
  The examples below run in this environment: the rows of the Unicode tables for
  U+0080..U+00FF (a code point outside this block is left as it is), \<open>json.loads\<close> and
  \<open>str()\<close> on the texts and values of the examples (any other text is taken not to be
  JSON), and a remote model whose reply is given.
\<close>

definition latin1_alnum :: "nat \<Rightarrow> bool" where
  "latin1_alnum c = (c = 170 \<or> c = 178 \<or> c = 179 \<or> c = 181 \<or> c = 185 \<or> c = 186
     \<or> (188 \<le> c \<and> c \<le> 190) \<or> (192 \<le> c \<and> c \<le> 255 \<and> c \<noteq> 215 \<and> c \<noteq> 247))"

definition latin1_upper :: "nat \<Rightarrow> pystr" where
  "latin1_upper c =
     (if 97 \<le> c \<and> c \<le> 122 then [c - 32]
      else if c = 181 then [924]
      else if c = 223 then [83, 83]
      else if 224 \<le> c \<and> c \<le> 254 \<and> c \<noteq> 247 then [c - 32]
      else if c = 255 then [376]
      else [c])"

definition latin1_lower :: "nat \<Rightarrow> nat" where
  "latin1_lower c =
     (if 65 \<le> c \<and> c \<le> 90 then c + 32
      else if 192 \<le> c \<and> c \<le> 222 \<and> c \<noteq> 215 then c + 32
      else c)"

definition reply_realistic :: pystr where
  \<open>reply_realistic = py ''{"prediction":"Realistic"}''\<close>

definition reply_realistic_reason :: pystr where
  \<open>reply_realistic_reason = py ''{"prediction":"Realistic","reason":"plain"}''\<close>

definition reply_not_realistic :: pystr where
  \<open>reply_not_realistic = py ''{"prediction":"Not Realistic"}''\<close>

definition reply_keyboard :: pystr where
  \<open>reply_keyboard = py ''{"prediction":"Not Realistic","reason":"keyboard pattern"}''\<close>

definition reply_brace_fence :: pystr where
  \<open>reply_brace_fence = py ''{"prediction":"Not Realistic","reason":"}```"}''\<close>

definition reply_backquotes :: pystr where
  \<open>reply_backquotes = py ''{"prediction":"Not Realistic","reason":"```"}''\<close>

definition reply_null_reason :: pystr where
  \<open>reply_null_reason = py ''{"prediction":"Not Realistic","reason":null}''\<close>

text \<open>The text that the pattern cuts out of \<open>reply_brace_fence\<close> when it stands in a fence.\<close>

definition reply_cut :: pystr where
  \<open>reply_cut = py ''{"prediction":"Not Realistic","reason":"}''\<close>

definition json_fence :: pystr where
  "json_fence = py ''```json''"

definition reply_prose :: pystr where
  "reply_prose = py ''Sure, the name looks realistic.''"

definition sample_loads :: "pystr \<Rightarrow> pyval option" where
  "sample_loads s =
     map_of
       [(reply_realistic,
         PyDict [(py ''prediction'', PyStr (py ''Realistic''))]),
        (reply_realistic_reason,
         PyDict [(py ''prediction'', PyStr (py ''Realistic'')), (py ''reason'', PyStr (py ''plain''))]),
        (reply_not_realistic,
         PyDict [(py ''prediction'', PyStr (py ''Not Realistic''))]),
        (reply_keyboard,
         PyDict [(py ''prediction'', PyStr (py ''Not Realistic'')),
                 (py ''reason'', PyStr (py ''keyboard pattern''))]),
        (reply_brace_fence,
         PyDict [(py ''prediction'', PyStr (py ''Not Realistic'')),
                 (py ''reason'', PyStr (py ''}```''))]),
        (reply_null_reason,
         PyDict [(py ''prediction'', PyStr (py ''Not Realistic'')),
                 (py ''reason'', PyNone)])]
       s"

fun sample_str :: "pyval \<Rightarrow> pystr" where
  "sample_str PyNone = py ''None''"
| "sample_str (PyBool b) = (if b then py ''True'' else py ''False'')"
| "sample_str (PyStr s) = s"
| "sample_str v = py ''...''"

definition sample_env :: "pystr + pystr option \<Rightarrow> env" where
  "sample_env answer =
     \<lparr>uni_alnum = latin1_alnum,
      uni_upper = (\<lambda>s. concat (map latin1_upper s)),
      uni_lower = map latin1_lower,
      json_loads = sample_loads,
      py_str = sample_str,
      chat_create = (\<lambda>req. answer)\<rparr>"

definition replying :: "pystr \<Rightarrow> env" where
  "replying content = sample_env (Inr (Some content))"

definition offline :: env where
  "offline = sample_env (Inl (py ''Connection error.''))"

section \<open>The order of the Pre-check rules\<close>

lemmas char_defs = py_def ascii_letter_def ascii_digit_def is_space_def is_word_def

lemmas precheck_defs =
  precheck_name_def invalid_chars_def letters_def consecutive_punct_def startswith_def

lemma digit_invalid:
  assumes "list_ex ascii_digit name"
  shows "invalid_chars name"
proof -
  from assms obtain c where c: "c \<in> set name" "48 \<le> c" "c \<le> 57"
    by (auto simp: list_ex_iff ascii_digit_def)
  then have "\<not> (ascii_letter c \<or> is_space c \<or> c = 45 \<or> c = 46)"
    by (simp add: ascii_letter_def is_space_def)
  with c(1) show ?thesis
    unfolding invalid_chars_def list_ex_iff by blast
qed

text \<open>
  C3. \<open>precheck_name\<close> gives the reason of the first rule, in the order InvalidCharacters,
  TooFewLetters, ConsecutivePunctuation, InvalidDotFormatting, that fails: it agrees with the
  ordered rule table, each reason is returned exactly when the rules before it pass and its
  own rule fails, and when one of the first three rules fails the result does not depend on
  the table of word characters, which only the fourth rule reads. A name with a digit and
  fewer than three letters fails with InvalidCharacters.
\<close>

theorem precheck_rule_order:
  "precheck_name E name = first_failing E name
   \<and> (invalid_chars name \<longrightarrow> precheck_name E name = (False, Some InvalidCharacters))
   \<and> (\<not> invalid_chars name \<and> length (letters name) < 3
        \<longrightarrow> precheck_name E name = (False, Some TooFewLetters))
   \<and> (\<not> invalid_chars name \<and> \<not> length (letters name) < 3 \<and> consecutive_punct name
        \<longrightarrow> precheck_name E name = (False, Some ConsecutivePunctuation))
   \<and> (\<not> invalid_chars name \<and> \<not> length (letters name) < 3 \<and> \<not> consecutive_punct name
        \<and> dot_between_words E name
        \<longrightarrow> precheck_name E name = (False, Some InvalidDotFormatting))
   \<and> (\<not> invalid_chars name \<and> \<not> length (letters name) < 3 \<and> \<not> consecutive_punct name
        \<and> \<not> dot_between_words E name
        \<longrightarrow> precheck_name E name = (True, None))
   \<and> (invalid_chars name \<or> length (letters name) < 3 \<or> consecutive_punct name
        \<longrightarrow> precheck_name E name = precheck_name E' name)
   \<and> (list_ex ascii_digit name \<and> length (letters name) < 3
        \<longrightarrow> precheck_name E name = (False, Some InvalidCharacters))"
proof -
  have table: "precheck_name E name = first_failing E name"
    by (simp add: precheck_name_def first_failing_def rule_table_def)
  have cases: "(invalid_chars name \<longrightarrow> precheck_name E name = (False, Some InvalidCharacters))
   \<and> (\<not> invalid_chars name \<and> length (letters name) < 3
        \<longrightarrow> precheck_name E name = (False, Some TooFewLetters))
   \<and> (\<not> invalid_chars name \<and> \<not> length (letters name) < 3 \<and> consecutive_punct name
        \<longrightarrow> precheck_name E name = (False, Some ConsecutivePunctuation))
   \<and> (\<not> invalid_chars name \<and> \<not> length (letters name) < 3 \<and> \<not> consecutive_punct name
        \<and> dot_between_words E name
        \<longrightarrow> precheck_name E name = (False, Some InvalidDotFormatting))
   \<and> (\<not> invalid_chars name \<and> \<not> length (letters name) < 3 \<and> \<not> consecutive_punct name
        \<and> \<not> dot_between_words E name
        \<longrightarrow> precheck_name E name = (True, None))"
    by (simp add: precheck_name_def)
  have indep: "invalid_chars name \<or> length (letters name) < 3 \<or> consecutive_punct name
        \<longrightarrow> precheck_name E name = precheck_name E' name"
    by (auto simp: precheck_name_def)
  have example: "list_ex ascii_digit name \<and> length (letters name) < 3
        \<longrightarrow> precheck_name E name = (False, Some InvalidCharacters)"
    using digit_invalid by (simp add: precheck_name_def)
  from table cases indep example show ?thesis
    by blast
qed

theorem precheck_rule_order_witness:
  "precheck_name offline (py ''K1'') = first_failing offline (py ''K1'')
   \<and> list_ex ascii_digit (py ''K1'') \<and> length (letters (py ''K1'')) < 3
   \<and> precheck_name offline (py ''K1'') = (False, Some InvalidCharacters)
   \<and> precheck_name offline (py ''K1'') = precheck_name (replying []) (py ''K1'')
   \<and> \<not> invalid_chars (py ''Ku'')
   \<and> precheck_name offline (py ''Ku'') = (False, Some TooFewLetters)
   \<and> precheck_name offline (py ''Mary..Anne'') = (False, Some ConsecutivePunctuation)
   \<and> precheck_name offline (py ''Ravi.kumar'') = (False, Some InvalidDotFormatting)
   \<and> precheck_name offline (py ''John-Doe'') = (True, None)"
  using precheck_rule_order [of offline "py ''K1''" "replying []"]
    precheck_rule_order [of offline "py ''Ku''" offline]
    precheck_rule_order [of offline "py ''Mary..Anne''" offline]
    precheck_rule_order [of offline "py ''Ravi.kumar''" offline]
    precheck_rule_order [of offline "py ''John-Doe''" offline]
  by (simp add: char_defs precheck_defs)

section \<open>Names with fewer than three letters\<close>

text \<open>
  C4, as the claim states it, fails: \<open>K1\<close> has one letter, and the Pre-check rejects it for
  its digit, not for its letters.
\<close>

theorem few_letters_counterexample:
  "length (letters (py ''K1'')) < 3
   \<and> precheck_name offline (py ''K1'') = (False, Some InvalidCharacters)
   \<and> precheck_name offline (py ''K1'') \<noteq> (False, Some TooFewLetters)"
  by (simp add: char_defs precheck_defs)

text \<open>
  C4, amended. A name made of ASCII letters, whitespace, hyphens and periods only, with fewer
  than three ASCII letters, fails the Pre-check with TooFewLetters.
\<close>

theorem few_letters_rejected:
  assumes "\<not> invalid_chars name" and "length (letters name) < 3"
  shows "precheck_name E name = (False, Some TooFewLetters)"
  using assms by (simp add: precheck_name_def)

theorem few_letters_rejected_witness:
  "\<not> invalid_chars (py ''Ku'') \<and> length (letters (py ''Ku'')) < 3
   \<and> precheck_name offline (py ''Ku'') = (False, Some TooFewLetters)
   \<and> precheck_name offline (py ''A. l'') = (False, Some TooFewLetters)"
proof -
  have ku: "\<not> invalid_chars (py ''Ku'')" "length (letters (py ''Ku'')) < 3"
    by (simp_all add: char_defs precheck_defs)
  have al: "\<not> invalid_chars (py ''A. l'')" "length (letters (py ''A. l'')) < 3"
    by (simp_all add: char_defs precheck_defs)
  from ku al few_letters_rejected [OF ku, of offline] few_letters_rejected [OF al, of offline]
  show ?thesis by simp
qed

section \<open>The rule on periods\<close>

lemma dot_between_words_iff:
  "dot_between_words E name \<longleftrightarrow>
     (\<exists>i. 0 < i \<and> Suc i < length name \<and> name ! i = 46
          \<and> is_word E (name ! (i - 1)) \<and> is_word E (name ! Suc i))"
proof (induction E name rule: dot_between_words.induct)
  case (1 E a b c cs)
  show ?case (is "?L = ?R")
  proof
    assume ?L
    then consider "is_word E a \<and> b = 46 \<and> is_word E c" | "dot_between_words E (b # c # cs)"
      by auto
    then show ?R
    proof cases
      case 1
      then show ?thesis by (intro exI[of _ 1]) simp
    next
      case 2
      with "1.IH" obtain i where "0 < i" "Suc i < length (b # c # cs)" "(b # c # cs) ! i = 46"
        "is_word E ((b # c # cs) ! (i - 1))" "is_word E ((b # c # cs) ! Suc i)" by blast
      then show ?thesis by (intro exI[of _ "Suc i"]) (cases i; simp)
    qed
  next
    assume ?R
    then obtain i where i: "0 < i" "Suc i < length (a # b # c # cs)" "(a # b # c # cs) ! i = 46"
        "is_word E ((a # b # c # cs) ! (i - 1))" "is_word E ((a # b # c # cs) ! Suc i)" by blast
    show ?L
    proof (cases "i = 1")
      case True
      with i show ?thesis by simp
    next
      case False
      with i obtain j where j: "i = Suc j" "0 < j" by (cases i) auto
      with i have "Suc j < length (b # c # cs) \<and> (b # c # cs) ! j = 46
        \<and> is_word E ((b # c # cs) ! (j - 1)) \<and> is_word E ((b # c # cs) ! Suc j)"
        by (cases j) auto
      with j "1.IH" have "dot_between_words E (b # c # cs)" by blast
      then show ?thesis by simp
    qed
  qed
qed (auto simp: less_Suc_eq)

text \<open>
  C5. The rule on periods fails exactly when some period of the name has a word character
  right before it and a word character right after it, and InvalidDotFormatting is the
  result exactly when, besides, the three rules before it pass. \<open>m.ahmed\<close> fails with
  InvalidDotFormatting; \<open>Mr. Hanif Uddin\<close> and \<open>p. k. robi\<close> pass the four rules.
\<close>

theorem dot_rule_exact:
  "(dot_between_words E name \<longleftrightarrow>
      (\<exists>i. 0 < i \<and> Suc i < length name \<and> name ! i = 46
           \<and> is_word E (name ! (i - 1)) \<and> is_word E (name ! Suc i)))
   \<and> (precheck_name E name = (False, Some InvalidDotFormatting) \<longleftrightarrow>
        \<not> invalid_chars name \<and> \<not> length (letters name) < 3 \<and> \<not> consecutive_punct name
        \<and> dot_between_words E name)
   \<and> precheck_name E (py ''m.ahmed'') = (False, Some InvalidDotFormatting)
   \<and> precheck_name E (py ''Mr. Hanif Uddin'') = (True, None)
   \<and> precheck_name E (py ''p. k. robi'') = (True, None)"
proof -
  have "precheck_name E name = (False, Some InvalidDotFormatting) \<longleftrightarrow>
        \<not> invalid_chars name \<and> \<not> length (letters name) < 3 \<and> \<not> consecutive_punct name
        \<and> dot_between_words E name"
    by (simp add: precheck_name_def)
  moreover have "precheck_name E (py ''m.ahmed'') = (False, Some InvalidDotFormatting)"
    by (simp add: char_defs precheck_defs)
  moreover have "precheck_name E (py ''Mr. Hanif Uddin'') = (True, None)"
    by (simp add: char_defs precheck_defs)
  moreover have "precheck_name E (py ''p. k. robi'') = (True, None)"
    by (simp add: char_defs precheck_defs)
  ultimately show ?thesis
    using dot_between_words_iff [of E name] by blast
qed

theorem dot_rule_exact_witness:
  "dot_between_words offline (py ''m.ahmed'')
   \<and> 0 < (1::nat) \<and> Suc 1 < length (py ''m.ahmed'') \<and> py ''m.ahmed'' ! 1 = 46
   \<and> is_word offline (py ''m.ahmed'' ! (1 - 1)) \<and> is_word offline (py ''m.ahmed'' ! Suc 1)
   \<and> \<not> dot_between_words offline (py ''Mr. Hanif Uddin'')
   \<and> precheck_name offline (py ''m.ahmed'') = (False, Some InvalidDotFormatting)
   \<and> precheck_name offline (py ''Mr. Hanif Uddin'') = (True, None)
   \<and> precheck_name offline (py ''p. k. robi'') = (True, None)"
  using dot_rule_exact [of offline "py ''m.ahmed''"] dot_rule_exact [of offline "py ''Mr. Hanif Uddin''"]
  by (simp add: char_defs precheck_defs)

section \<open>Normalizing a normalized name\<close>

lemma split_spaces: "list_all is_space ws \<Longrightarrow> str_split (ws @ s) = str_split s"
  by (induction ws) auto

lemma split_word:
  assumes "w \<noteq> []" "list_all non_space w" "s = [] \<or> is_space (hd s)"
  shows "str_split (w @ s) = w # str_split s"
proof -
  from assms obtain c w' where w: "w = c # w'" "\<not> is_space c" "list_all non_space w'"
    by (cases w) auto
  from assms(3) w(3) have "takeWhile non_space (w' @ s) = w'" "dropWhile non_space (w' @ s) = s"
    by (cases s; induction w'; simp)+
  with w show ?thesis by simp
qed

lemma split_lstrip: "str_split (dropWhile is_space s) = str_split s"
  by (induction s) auto

lemma split_append_spaces:
  "list_all is_space ws \<Longrightarrow> str_split (s @ ws) = str_split s"
proof (induction s rule: str_split.induct)
  case 1
  then show ?case using split_spaces [of ws "[]"] by simp
next
  case (2 c cs)
  show ?case
  proof (cases "is_space c")
    case True
    with 2 show ?thesis by simp
  next
    case False
    let ?w = "c # takeWhile non_space cs" and ?r = "dropWhile non_space cs"
    have cs: "(c # cs) @ ws = ?w @ (?r @ ws)" by simp
    have w: "?w \<noteq> []" "list_all non_space ?w"
      using False by (auto simp: list_all_iff dest: set_takeWhileD)
    have r: "?r @ ws = [] \<or> is_space (hd (?r @ ws))"
    proof (cases "dropWhile non_space cs")
      case Nil
      show ?thesis unfolding Nil using 2(3) by (cases ws) auto
    next
      case (Cons x xs)
      then have "\<not> non_space x" using hd_dropWhile [of non_space cs] by auto
      with Cons show ?thesis by simp
    qed
    have "str_split ((c # cs) @ ws) = ?w # str_split (?r @ ws)"
      unfolding cs using split_word [OF w r] .
    also have "str_split (?r @ ws) = str_split ?r"
      using 2(2) [OF False] 2(3) by simp
    finally show ?thesis using False by simp
  qed
qed

lemma split_rstrip: "str_split (rev (dropWhile is_space (rev s))) = str_split s"
proof -
  have "s = rev (dropWhile is_space (rev s)) @ rev (takeWhile is_space (rev s))"
    by (metis rev_append rev_rev_ident takeWhile_dropWhile_id)
  moreover have "list_all is_space (rev (takeWhile is_space (rev s)))"
    by (auto simp: list_all_iff dest: set_takeWhileD)
  ultimately show ?thesis
    using split_append_spaces by metis
qed

lemma split_strip: "str_split (str_strip s) = str_split s"
  by (simp add: str_strip_def split_rstrip split_lstrip)

lemma sub_takeWhile: "takeWhile non_space (re_sub_spaces s) = takeWhile non_space s"
  by (induction s) (auto simp: is_space_def)

lemma sub_dropWhile: "dropWhile non_space (re_sub_spaces s) = re_sub_spaces (dropWhile non_space s)"
  by (induction s) (auto simp: is_space_def)

lemma split_sub: "str_split (re_sub_spaces s) = str_split s"
proof (induction s rule: length_induct)
  case (1 s)
  show ?case
  proof (cases s)
    case Nil
    then show ?thesis by simp
  next
    case (Cons c cs)
    show ?thesis
    proof (cases "is_space c")
      case True
      have "length (dropWhile is_space cs) < length s"
        using Cons length_dropWhile_le [of is_space cs] by simp
      with 1 have "str_split (re_sub_spaces (dropWhile is_space cs)) = str_split (dropWhile is_space cs)"
        by blast
      with True Cons show ?thesis by (simp add: split_lstrip is_space_def)
    next
      case False
      have "length (dropWhile non_space cs) < length s"
        using Cons length_dropWhile_le [of non_space cs] by simp
      with 1 have "str_split (re_sub_spaces (dropWhile non_space cs)) = str_split (dropWhile non_space cs)"
        by blast
      with False Cons show ?thesis by (simp add: sub_takeWhile sub_dropWhile)
    qed
  qed
qed

lemma normalize_words: "normalize_name E s = str_join [32] (map (capitalize_word E) (str_split s))"
  by (simp add: normalize_name_def split_strip split_sub)

lemma split_words: "w \<in> set (str_split s) \<Longrightarrow> w \<noteq> [] \<and> list_all non_space w \<and> set w \<subseteq> set s"
proof (induction s arbitrary: w rule: str_split.induct)
  case 1
  then show ?case by simp
next
  case (2 c cs)
  show ?case
  proof (cases "is_space c")
    case True
    with 2 show ?thesis by auto
  next
    case False
    note IH = 2(2) [OF False]
    from False 2(3) consider (first) "w = c # takeWhile non_space cs"
      | (later) "w \<in> set (str_split (dropWhile non_space cs))"
      by auto
    then show ?thesis
    proof cases
      case first
      with False show ?thesis by (auto simp: list_all_iff dest: set_takeWhileD)
    next
      case later
      from IH [OF this] show ?thesis
        using set_dropWhileD by fastforce
    qed
  qed
qed

lemma split_join:
  "\<forall>w \<in> set ws. w \<noteq> [] \<and> list_all non_space w \<Longrightarrow> str_split (str_join [32] ws) = ws"
proof (induction ws rule: induct_list012)
  case 1
  then show ?case by simp
next
  case (2 w)
  then have "str_split (w @ []) = w # str_split []"
    by (intro split_word) auto
  then show ?case by simp
next
  case (3 w v ws)
  then have "str_split (w @ (32 # str_join [32] (v # ws))) = w # str_split (32 # str_join [32] (v # ws))"
    by (intro split_word) (auto simp: is_space_def)
  with 3 show ?case by (simp add: is_space_def)
qed

lemma cap_ascii:
  assumes "w \<noteq> []" "list_all non_space w" "is_ascii w"
  shows "capitalize_word E w = ascii_upper (hd w) # map ascii_lower (tl w)"
    and "capitalize_word E w \<noteq> []" and "list_all non_space (capitalize_word E w)"
    and "is_ascii (capitalize_word E w)"
    and "capitalize_word E (capitalize_word E w) = capitalize_word E w"
proof -
  from assms obtain c cs where w: "w = c # cs" by (cases w) auto
  with assms have c: "c < 128" "\<not> is_space c" and cs: "list_all (\<lambda>c. c < 128) cs" "list_all non_space cs"
    by (auto simp: is_ascii_def)
  show eq: "capitalize_word E w = ascii_upper (hd w) # map ascii_lower (tl w)"
    using w c cs by (simp add: capitalize_word_def str_upper_def str_lower_def is_ascii_def)
  then show "capitalize_word E w \<noteq> []" by simp
  have u: "ascii_upper c < 128" "\<not> is_space (ascii_upper c)" "ascii_upper (ascii_upper c) = ascii_upper c"
    using c by (auto simp: ascii_upper_def is_space_def)
  have l: "x < 128 \<Longrightarrow> \<not> is_space x \<Longrightarrow> ascii_lower x < 128 \<and> \<not> is_space (ascii_lower x) 
       \<and> ascii_lower (ascii_lower x) = ascii_lower x" for x
    by (auto simp: ascii_lower_def is_space_def)
  from cs l have l': "list_all (\<lambda>c. c < 128) (map ascii_lower cs)" "list_all non_space (map ascii_lower cs)"
    "map ascii_lower (map ascii_lower cs) = map ascii_lower cs"
    by (auto simp: list_all_iff)
  show "list_all non_space (capitalize_word E w)" using eq w u l' by simp
  show "is_ascii (capitalize_word E w)" using eq w u l' by (simp add: is_ascii_def)
  show "capitalize_word E (capitalize_word E w) = capitalize_word E w"
    unfolding eq using w u l'
    by (simp add: capitalize_word_def str_upper_def str_lower_def is_ascii_def)
qed

lemma strip_id:
  assumes "s \<noteq> []" "\<not> is_space (hd s)" "\<not> is_space (last s)"
  shows "str_strip s = s"
proof -
  from assms have "dropWhile is_space s = s" by (cases s) auto
  moreover from assms have "dropWhile is_space (rev s) = rev s"
    by (cases s rule: rev_cases) auto
  ultimately show ?thesis by (simp add: str_strip_def)
qed

lemma sub_word: "list_all non_space w \<Longrightarrow> re_sub_spaces (w @ r) = w @ re_sub_spaces r"
  by (induction w) auto

lemma strip_ends:
  assumes "str_strip s \<noteq> []"
  shows "\<not> is_space (hd (str_strip s))" and "\<not> is_space (last (str_strip s))"
proof -
  let ?v = "dropWhile is_space s" and ?w = "dropWhile is_space (rev (dropWhile is_space s))"
  from assms have w: "?w \<noteq> []" unfolding str_strip_def rev_is_Nil_conv .
  then have v: "?v \<noteq> []" by (metis dropWhile.simps(1) rev.simps(1))
  have "\<not> is_space (hd ?w)" using w by (rule hd_dropWhile)
  then show "\<not> is_space (last (str_strip s))"
    using w by (simp add: str_strip_def last_rev)
  have "rev ?v = takeWhile is_space (rev ?v) @ ?w" by simp
  with w have "last ?w = last (rev ?v)" by (metis last_appendR)
  also have "\<dots> = hd ?v" using v by (simp add: last_rev)
  finally have "hd (str_strip s) = hd ?v"
    using w by (simp add: str_strip_def hd_rev)
  moreover have "\<not> is_space (hd ?v)" using v by (rule hd_dropWhile)
  ultimately show "\<not> is_space (hd (str_strip s))" by simp
qed

lemma sub_words:
  "t = [] \<or> (\<not> is_space (hd t) \<and> \<not> is_space (last t)) \<Longrightarrow>
   re_sub_spaces t = str_join [32] (str_split t)"
proof (induction t rule: length_induct)
  case (1 t)
  show ?case
  proof (cases t)
    case Nil
    then show ?thesis by simp
  next
    case (Cons c cs)
    with 1(2) have c: "\<not> is_space c" and l: "\<not> is_space (last t)" by auto
    let ?w = "c # takeWhile non_space cs" and ?r = "dropWhile non_space cs"
    have t: "t = ?w @ ?r" using Cons by simp
    have w: "list_all non_space ?w"
      using c by (auto simp: list_all_iff dest: set_takeWhileD)
    have sub: "re_sub_spaces t = ?w @ re_sub_spaces ?r"
      using sub_word [OF w, of ?r] t by simp
    have split: "str_split t = ?w # str_split ?r"
      using Cons c by simp
    show ?thesis
    proof (cases ?r)
      case Nil
      with sub split show ?thesis by simp
    next
      case r: (Cons x xs)
      then have x: "is_space x" using hd_dropWhile [of non_space cs] by auto
      let ?r' = "dropWhile is_space xs"
      have "last t = last ?r" using t r by (metis last_appendR list.distinct(1))
      with l have lr: "\<not> is_space (last (x # xs))" using r by simp
      have r': "?r' \<noteq> []"
      proof
        assume "?r' = []"
        then have "\<forall>y \<in> set xs. is_space y" by (simp add: dropWhile_eq_Nil_conv)
        with x have "is_space (last (x # xs))" by (cases xs rule: rev_cases) auto
        with lr show False by simp
      qed
      then obtain y ys where y: "?r' = y # ys" by (cases ?r') auto
      then have ny: "\<not> is_space y" using hd_dropWhile [of is_space xs] by auto
      have "xs = takeWhile is_space xs @ ?r'" by simp
      with r' have "last xs = last ?r'" by (metis last_appendR)
      moreover from r' have "xs \<noteq> []" by auto
      ultimately have "last ?r' = last (x # xs)" by simp
      with lr ny y have ends: "?r' = [] \<or> (\<not> is_space (hd ?r') \<and> \<not> is_space (last ?r'))"
        by simp
      have "length ?r' \<le> length xs" by (rule length_dropWhile_le)
      moreover have "length xs < length t"
        using t r by (metis length_append length_Cons less_add_Suc2 trans_less_add2 lessI)
      ultimately have "length ?r' < length t" by simp
      with 1(1) ends have IH: "re_sub_spaces ?r' = str_join [32] (str_split ?r')" by blast
      have "str_split ?r = str_split ?r'"
        using r x by (simp add: split_lstrip)
      moreover have "str_split ?r' = (y # takeWhile non_space ys) # str_split (dropWhile non_space ys)"
        using y ny by simp
      moreover have "re_sub_spaces ?r = 32 # re_sub_spaces ?r'"
        using r x by simp
      ultimately show ?thesis
        using sub split IH by simp
    qed
  qed
qed

lemma join_ends:
  "\<forall>w \<in> set ws. w \<noteq> [] \<and> list_all non_space w \<Longrightarrow> ws \<noteq> [] \<Longrightarrow>
   str_join [32] ws \<noteq> [] \<and> \<not> is_space (hd (str_join [32] ws)) \<and> \<not> is_space (last (str_join [32] ws))"
proof (induction ws rule: induct_list012)
  case 1
  then show ?case by simp
next
  case (2 w)
  then have "w \<noteq> []" "\<forall>x \<in> set w. \<not> is_space x" by (auto simp: list_all_iff)
  then show ?case using hd_in_set last_in_set by auto
next
  case (3 w v ws)
  then have "str_join [32] (v # ws) \<noteq> [] \<and> \<not> is_space (last (str_join [32] (v # ws)))"
    by simp
  moreover from 3(3) have "w \<noteq> []" "\<forall>x \<in> set w. \<not> is_space x" by (auto simp: list_all_iff)
  then have "w \<noteq> []" "\<not> is_space (hd w)" using hd_in_set by auto
  ultimately show ?case by simp
qed

lemma normalize_app_words: "normalize_app s = str_join [32] (str_split s)"
proof -
  have ends: "str_strip s = [] \<or> (\<not> is_space (hd (str_strip s)) \<and> \<not> is_space (last (str_strip s)))"
    using strip_ends by blast
  have "normalize_app s = str_strip (str_join [32] (str_split (str_strip s)))"
    by (simp add: normalize_app_def sub_words [OF ends])
  also have "\<dots> = str_strip (str_join [32] (str_split s))"
    by (simp add: split_strip)
  also have "\<dots> = str_join [32] (str_split s)"
  proof (cases "str_split s = []")
    case True
    then show ?thesis by (simp add: str_strip_def)
  next
    case False
    have "\<forall>w \<in> set (str_split s). w \<noteq> [] \<and> list_all non_space w"
      using split_words by blast
    from join_ends [OF this False] show ?thesis by (intro strip_id) auto
  qed
  finally show ?thesis .
qed

lemma normalize_app_idempotent: "normalize_app (normalize_app s) = normalize_app s"
proof -
  have "\<forall>w \<in> set (str_split s). w \<noteq> [] \<and> list_all non_space w"
    using split_words by blast
  then have "str_split (str_join [32] (str_split s)) = str_split s"
    by (rule split_join)
  then show ?thesis by (simp add: normalize_app_words)
qed

lemma normalize_enh_words: "normalize_enh E s = normalize_name E s"
  by (simp add: normalize_enh_def normalize_words split_strip split_sub)

lemmas norm_defs = normalize_name_def normalize_enh_def normalize_app_def str_strip_def
  capitalize_word_def str_upper_def str_lower_def is_ascii_def ascii_upper_def ascii_lower_def

lemmas endpoint_defs = predict_def predict_enh_def predict_app_def dict_get_def VALID_MODELS_def
  error_reply_def server_error_def invalid_model_text_def Let_def

lemmas eval_defs = char_defs precheck_defs norm_defs endpoint_defs

lemmas sample_defs = offline_def replying_def sample_env_def latin1_upper_def latin1_lower_def
  latin1_alnum_def sample_loads_def reply_realistic_def reply_realistic_reason_def
  reply_not_realistic_def reply_keyboard_def reply_brace_fence_def reply_cut_def json_fence_def
  reply_prose_def reply_null_reason_def reply_backquotes_def

text \<open>
  C6, as the claim states it, fails: the upper case of U+00DF (the sharp s) is \<open>SS\<close>, two
  letters, and the second of them is lowered when the result is normalized again.
\<close>

theorem normalize_idempotent_counterexample:
  "normalize_name offline [223] = py ''SS''
   \<and> normalize_name offline (normalize_name offline [223]) = py ''Ss''
   \<and> normalize_name offline (normalize_name offline [223]) \<noteq> normalize_name offline [223]"
  by (simp add: norm_defs char_defs sample_defs)

text \<open>
  C6, amended. For every input string whose characters, the whitespace apart, are ASCII
  characters, normalizing the normalized string gives the same string, with the normalization
  of \<open>app-precheck.py\<close> and with the one of \<open>app-precheck-prompt-enhanment.py\<close>, which
  capitalize the words; the whitespace may be any Unicode whitespace. The normalization of
  \<open>app.py\<close>, which only strips and collapses the whitespace, has the property for every
  input string.
\<close>

theorem normalize_idempotent_ascii:
  "(words_ascii s \<longrightarrow> normalize_name E (normalize_name E s) = normalize_name E s)
   \<and> (words_ascii s \<longrightarrow> normalize_enh E (normalize_enh E s) = normalize_enh E s)
   \<and> normalize_app (normalize_app s) = normalize_app s"
proof -
  have "normalize_name E (normalize_name E s) = normalize_name E s" if ascii: "words_ascii s"
  proof -
    let ?ws = "map (capitalize_word E) (str_split s)"
    have words: "w \<noteq> [] \<and> list_all non_space w \<and> is_ascii w" if "w \<in> set (str_split s)" for w
      using split_words [OF that] ascii by (auto simp: is_ascii_def words_ascii_def list_all_iff)
    then have "\<forall>w \<in> set ?ws. w \<noteq> [] \<and> list_all non_space w"
      using cap_ascii(2,3) by auto
    then have again: "str_split (str_join [32] ?ws) = ?ws"
      by (rule split_join)
    have stable: "map (capitalize_word E) ?ws = ?ws"
      unfolding map_map by (rule map_cong [OF refl]) (use words cap_ascii(5) in auto)
    have "normalize_name E (normalize_name E s)
        = str_join [32] (map (capitalize_word E) (str_split (str_join [32] ?ws)))"
      by (simp only: normalize_words)
    also have "\<dots> = str_join [32] (map (capitalize_word E) ?ws)"
      by (simp only: again)
    also have "\<dots> = str_join [32] ?ws"
      by (simp only: stable)
    finally show ?thesis
      by (simp only: normalize_words)
  qed
  then show ?thesis
    by (simp add: normalize_enh_words normalize_app_idempotent)
qed

theorem normalize_idempotent_ascii_witness:
  "words_ascii (py ''  mustak   AHMED '')
   \<and> normalize_name offline (py ''  mustak   AHMED '') = py ''Mustak Ahmed''
   \<and> normalize_name offline (normalize_name offline (py ''  mustak   AHMED ''))
       = normalize_name offline (py ''  mustak   AHMED '')
   \<and> words_ascii (py ''john'' @ [160] @ py ''doe'')
   \<and> normalize_name offline (py ''john'' @ [160] @ py ''doe'') = py ''John Doe''
   \<and> normalize_name offline (normalize_name offline (py ''john'' @ [160] @ py ''doe''))
       = normalize_name offline (py ''john'' @ [160] @ py ''doe'')
   \<and> normalize_enh offline (normalize_enh offline (py ''  mustak   AHMED ''))
       = normalize_enh offline (py ''  mustak   AHMED '')
   \<and> normalize_app (py ''  mustak   AHMED '') = py ''mustak AHMED''
   \<and> normalize_app (normalize_app (py ''  mustak   AHMED '')) = normalize_app (py ''  mustak   AHMED '')"
proof -
  have a: "words_ascii (py ''  mustak   AHMED '')" "words_ascii (py ''john'' @ [160] @ py ''doe'')"
    by (simp_all add: words_ascii_def py_def is_space_def)
  have "normalize_name offline (py ''  mustak   AHMED '') = py ''Mustak Ahmed''"
    "normalize_name offline (py ''john'' @ [160] @ py ''doe'') = py ''John Doe''"
    "normalize_app (py ''  mustak   AHMED '') = py ''mustak AHMED''"
    by (simp_all add: norm_defs char_defs)
  with a normalize_idempotent_ascii [of "py ''  mustak   AHMED ''" offline]
    normalize_idempotent_ascii [of "py ''john'' @ [160] @ py ''doe''" offline]
  show ?thesis
    by simp
qed

section \<open>The order of the checks in the endpoints\<close>

lemma keys_distinct:
  "py ''name'' \<noteq> py ''prediction''" "py ''name'' \<noteq> py ''reason''" "py ''prediction'' \<noteq> py ''reason''"
  "py ''reason'' \<noteq> py ''name''" "py ''reason'' \<noteq> py ''prediction''" "py ''prediction'' \<noteq> py ''name''"
  "py ''error'' \<noteq> py ''prediction''" "py ''error'' \<noteq> py ''reason''" "py ''error'' \<noteq> py ''name''"
  "py ''prediction'' \<noteq> py ''error''" "py ''reason'' \<noteq> py ''error''"
  "py ''Realistic'' \<noteq> py ''Not Realistic''" "py ''Not Realistic'' \<noteq> py ''Realistic''"
  by (simp_all add: py_def)

lemma normalize_empty:
  "normalize_name E [] = []" "normalize_enh E [] = []" "normalize_app [] = []"
  by (simp_all add: normalize_name_def normalize_enh_def normalize_app_def str_strip_def)

lemma name_present:
  assumes "dict_get d (py ''name'') (PyStr []) = PyStr raw" "raw \<noteq> []"
  shows "d \<noteq> []"
  using assms by (auto simp: dict_get_def)

text \<open>
  C1, as the claim states it, fails in \<open>app-precheck-prompt-enhanment.py\<close>: the verdict of a
  rejected name carries no reason there.
\<close>

theorem precheck_failure_counterexample:
  "fst (predict_enh offline (PyDict [(py ''name'', PyStr (py ''k1''))])) =
      Reply 200 [(py ''name'', PyStr (py ''K1'')), (py ''prediction'', PyStr (py ''Not Realistic''))]
   \<and> map_of [(py ''name'', PyStr (py ''K1'')), (py ''prediction'', PyStr (py ''Not Realistic''))]
        (py ''reason'') = None
   \<and> \<not> fst (precheck_name offline (normalize_enh offline (py ''k1'')))"
  by (simp add: eval_defs)

text \<open>
  C1, amended. In \<open>app-precheck.py\<close>, for every request whose normalized name is not empty
  and fails the Pre-check, the response is the verdict Not Realistic with status 200, its
  reason is the text of one of the four reasons, and no request is sent to the remote model.
  In \<open>app-precheck-prompt-enhanment.py\<close>, when the model of the request is in the allow-list as
  well, the response is the verdict Not Realistic with status 200 and without a reason, and no
  request is sent to the remote model.
\<close>

theorem precheck_failure_verdict:
  assumes "dict_get d (py ''name'') (PyStr []) = PyStr raw"
  shows "(normalize_name E raw \<noteq> [] \<and> \<not> fst (precheck_name E (normalize_name E raw)) \<longrightarrow>
           (\<exists>r \<in> set [InvalidCharacters, TooFewLetters, ConsecutivePunctuation, InvalidDotFormatting].
              predict E (PyDict d) =
                (Reply 200 [(py ''name'', PyStr (normalize_name E raw)),
                            (py ''prediction'', PyStr (py ''Not Realistic'')),
                            (py ''reason'', PyStr (reason_text r))], [])))
       \<and> (normalize_enh E raw \<noteq> [] \<and> \<not> fst (precheck_name E (normalize_enh E raw))
            \<and> dict_get d (py ''model'') (PyStr (py ''gpt-4o-mini'')) \<in> set (map PyStr VALID_MODELS) \<longrightarrow>
           predict_enh E (PyDict d) =
             (Reply 200 [(py ''name'', PyStr (normalize_enh E raw)),
                         (py ''prediction'', PyStr (py ''Not Realistic''))], []))"
proof (intro conjI impI)
  assume a: "normalize_name E raw \<noteq> [] \<and> \<not> fst (precheck_name E (normalize_name E raw))"
  then have "raw \<noteq> []" using normalize_empty(1) by auto
  with assms have d: "truthy (PyDict d)" using name_present by simp
  from a obtain r where r: "precheck_name E (normalize_name E raw) = (False, Some r)"
    by (auto simp: precheck_name_def split: if_splits)
  have "r \<in> set [InvalidCharacters, TooFewLetters, ConsecutivePunctuation, InvalidDotFormatting]"
    by (cases r) simp_all
  moreover from assms a d r have "predict E (PyDict d) =
                (Reply 200 [(py ''name'', PyStr (normalize_name E raw)),
                            (py ''prediction'', PyStr (py ''Not Realistic'')),
                            (py ''reason'', PyStr (reason_text r))], [])"
    by (simp add: predict_def Let_def)
  ultimately show "\<exists>r \<in> set [InvalidCharacters, TooFewLetters, ConsecutivePunctuation, InvalidDotFormatting].
              predict E (PyDict d) =
                (Reply 200 [(py ''name'', PyStr (normalize_name E raw)),
                            (py ''prediction'', PyStr (py ''Not Realistic'')),
                            (py ''reason'', PyStr (reason_text r))], [])"
    by blast
next
  assume a: "normalize_enh E raw \<noteq> [] \<and> \<not> fst (precheck_name E (normalize_enh E raw))
            \<and> dict_get d (py ''model'') (PyStr (py ''gpt-4o-mini'')) \<in> set (map PyStr VALID_MODELS)"
  then obtain r where r: "precheck_name E (normalize_enh E raw) = (False, r)"
    by (cases "precheck_name E (normalize_enh E raw)") auto
  have "(if truthy (PyDict d) then PyDict d else PyDict []) = PyDict d"
    by simp
  with assms a r show "predict_enh E (PyDict d) =
             (Reply 200 [(py ''name'', PyStr (normalize_enh E raw)),
                         (py ''prediction'', PyStr (py ''Not Realistic''))], [])"
    by (simp add: predict_enh_def Let_def)
qed

theorem precheck_failure_verdict_witness:
  "predict offline (PyDict [(py ''name'', PyStr (py ''k1''))]) =
      (Reply 200 [(py ''name'', PyStr (py ''K1'')),
                  (py ''prediction'', PyStr (py ''Not Realistic'')),
                  (py ''reason'', PyStr (py ''Invalid characters present''))], [])
   \<and> predict_enh offline (PyDict [(py ''name'', PyStr (py ''k1''))]) =
      (Reply 200 [(py ''name'', PyStr (py ''K1'')),
                  (py ''prediction'', PyStr (py ''Not Realistic''))], [])"
proof -
  let ?d = "[(py ''name'', PyStr (py ''k1''))]"
  have name: "dict_get ?d (py ''name'') (PyStr []) = PyStr (py ''k1'')"
    by (simp add: dict_get_def)
  have hyps: "normalize_name offline (py ''k1'') \<noteq> []"
    "\<not> fst (precheck_name offline (normalize_name offline (py ''k1'')))"
    "normalize_enh offline (py ''k1'') \<noteq> []"
    "\<not> fst (precheck_name offline (normalize_enh offline (py ''k1'')))"
    "dict_get ?d (py ''model'') (PyStr (py ''gpt-4o-mini'')) \<in> set (map PyStr VALID_MODELS)"
    by (simp_all add: eval_defs)
  have norm: "normalize_name offline (py ''k1'') = py ''K1''" "normalize_enh offline (py ''k1'') = py ''K1''"
    by (simp_all add: eval_defs)
  from precheck_failure_verdict [OF name, of offline] hyps
  have "(\<exists>r \<in> set [InvalidCharacters, TooFewLetters, ConsecutivePunctuation, InvalidDotFormatting].
              predict offline (PyDict ?d) =
                (Reply 200 [(py ''name'', PyStr (normalize_name offline (py ''k1''))),
                            (py ''prediction'', PyStr (py ''Not Realistic'')),
                            (py ''reason'', PyStr (reason_text r))], []))"
    "predict_enh offline (PyDict ?d) =
             (Reply 200 [(py ''name'', PyStr (normalize_enh offline (py ''k1''))),
                         (py ''prediction'', PyStr (py ''Not Realistic''))], [])"
    by blast+
  moreover have "predict offline (PyDict ?d) =
      (Reply 200 [(py ''name'', PyStr (py ''K1'')),
                  (py ''prediction'', PyStr (py ''Not Realistic'')),
                  (py ''reason'', PyStr (py ''Invalid characters present''))], [])"
    by (simp add: eval_defs)
  ultimately show ?thesis
    by (simp only: norm)
qed

text \<open>
  C2, as the claim states it, fails in \<open>app-precheck.py\<close>: the Pre-check runs before the
  model is looked up in the allow-list, and a name that fails it gets its verdict whatever
  the model is.
\<close>

theorem unlisted_model_counterexample:
  "PyStr (py ''gpt-5'') \<notin> set (map PyStr VALID_MODELS)
   \<and> predict offline (PyDict [(py ''name'', PyStr (py ''k1'')), (py ''model'', PyStr (py ''gpt-5''))]) =
      (Reply 200 [(py ''name'', PyStr (py ''K1'')),
                  (py ''prediction'', PyStr (py ''Not Realistic'')),
                  (py ''reason'', PyStr (py ''Invalid characters present''))], [])"
  by (simp add: eval_defs)

text \<open>
  C2, amended. In \<open>app-precheck-prompt-enhanment.py\<close>, and in \<open>app.py\<close>, which has no Pre-check,
  every request whose normalized name is not empty and whose model is not in the allow-list
  fails with the client error of an invalid model (status 400) and sends nothing to the remote
  model, whether the name passes the Pre-check or not. In \<open>app-precheck.py\<close> the same holds
  for the requests whose normalized name passes the Pre-check.
\<close>

theorem unlisted_model_rejected:
  assumes "dict_get d (py ''name'') (PyStr []) = PyStr raw"
  shows "(normalize_name E raw \<noteq> [] \<and> fst (precheck_name E (normalize_name E raw))
            \<and> dict_get d (py ''model'') (PyStr (py ''gpt-4.1-nano'')) \<notin> set (map PyStr VALID_MODELS) \<longrightarrow>
           predict E (PyDict d) = (Reply 400 [(py ''error'', PyStr invalid_model_text)], []))
       \<and> (normalize_enh E raw \<noteq> []
            \<and> dict_get d (py ''model'') (PyStr (py ''gpt-4o-mini'')) \<notin> set (map PyStr VALID_MODELS) \<longrightarrow>
           predict_enh E (PyDict d) = (Reply 400 [(py ''error'', PyStr invalid_model_text)], []))
       \<and> (normalize_app raw \<noteq> []
            \<and> dict_get d (py ''model'') (PyStr (py ''gpt-4.1-nano'')) \<notin> set (map PyStr VALID_MODELS) \<longrightarrow>
           predict_app E (PyDict d) = (Reply 400 [(py ''error'', PyStr invalid_model_text)], []))"
proof (intro conjI impI)
  assume a: "normalize_name E raw \<noteq> [] \<and> fst (precheck_name E (normalize_name E raw))
            \<and> dict_get d (py ''model'') (PyStr (py ''gpt-4.1-nano'')) \<notin> set (map PyStr VALID_MODELS)"
  then have "raw \<noteq> []" using normalize_empty(1) by auto
  with assms have d: "truthy (PyDict d)" using name_present by simp
  from a obtain r where r: "precheck_name E (normalize_name E raw) = (True, r)"
    by (cases "precheck_name E (normalize_name E raw)") auto
  from assms a d r show "predict E (PyDict d) = (Reply 400 [(py ''error'', PyStr invalid_model_text)], [])"
    by (simp add: predict_def error_reply_def Let_def)
next
  assume a: "normalize_enh E raw \<noteq> []
            \<and> dict_get d (py ''model'') (PyStr (py ''gpt-4o-mini'')) \<notin> set (map PyStr VALID_MODELS)"
  have "(if truthy (PyDict d) then PyDict d else PyDict []) = PyDict d"
    by simp
  with assms a show "predict_enh E (PyDict d) = (Reply 400 [(py ''error'', PyStr invalid_model_text)], [])"
    by (simp add: predict_enh_def error_reply_def Let_def)
next
  assume a: "normalize_app raw \<noteq> []
            \<and> dict_get d (py ''model'') (PyStr (py ''gpt-4.1-nano'')) \<notin> set (map PyStr VALID_MODELS)"
  then have "raw \<noteq> []" using normalize_empty(3) by auto
  with assms have d: "truthy (PyDict d)" using name_present by simp
  from assms a d show "predict_app E (PyDict d) = (Reply 400 [(py ''error'', PyStr invalid_model_text)], [])"
    by (simp add: predict_app_def error_reply_def Let_def)
qed

theorem unlisted_model_rejected_witness:
  "predict offline (PyDict [(py ''name'', PyStr (py ''john  doe'')), (py ''model'', PyStr (py ''gpt-5''))])
     = (Reply 400 [(py ''error'', PyStr invalid_model_text)], [])
   \<and> predict_enh offline (PyDict [(py ''name'', PyStr (py ''john  doe'')), (py ''model'', PyStr (py ''gpt-5''))])
     = (Reply 400 [(py ''error'', PyStr invalid_model_text)], [])
   \<and> predict_app offline (PyDict [(py ''name'', PyStr (py ''john  doe'')), (py ''model'', PyStr (py ''gpt-5''))])
     = (Reply 400 [(py ''error'', PyStr invalid_model_text)], [])"
proof -
  let ?d = "[(py ''name'', PyStr (py ''john  doe'')), (py ''model'', PyStr (py ''gpt-5''))]"
  have name: "dict_get ?d (py ''name'') (PyStr []) = PyStr (py ''john  doe'')"
    by (simp add: dict_get_def)
  have hyps: "normalize_name offline (py ''john  doe'') \<noteq> []"
    "fst (precheck_name offline (normalize_name offline (py ''john  doe'')))"
    "dict_get ?d (py ''model'') (PyStr (py ''gpt-4.1-nano'')) \<notin> set (map PyStr VALID_MODELS)"
    "normalize_enh offline (py ''john  doe'') \<noteq> []"
    "dict_get ?d (py ''model'') (PyStr (py ''gpt-4o-mini'')) \<notin> set (map PyStr VALID_MODELS)"
    "normalize_app (py ''john  doe'') \<noteq> []"
    by (simp_all add: eval_defs)
  from unlisted_model_rejected [OF name, of offline] hyps show ?thesis
    by blast
qed

section \<open>A name that is not a string\<close>

text \<open>
  C10. In \<open>app-precheck.py\<close>, when the payload has the key \<open>name\<close> with a value that is not a
  string (a number, \<open>null\<close>, a list), \<open>.strip()\<close> raises, only the outer handler catches the
  exception, and the response is the server error with status 500, not a client error;
  nothing is sent to the remote model.
\<close>

theorem name_not_string_server_error:
  assumes "map_of d (py ''name'') = Some v" and "\<forall>s. v \<noteq> PyStr s"
  shows "predict E (PyDict d) =
           (Reply 500 [(py ''error'', PyStr (py ''An unexpected server error occurred''))], [])"
proof -
  from assms(1) have "d \<noteq> []" by auto
  moreover from assms(1) have "dict_get d (py ''name'') (PyStr []) = v"
    by (simp add: dict_get_def)
  ultimately show ?thesis
    using assms(2) by (cases v) (simp_all add: predict_def server_error_def error_reply_def)
qed

theorem name_not_string_server_error_witness:
  "predict offline (PyDict [(py ''name'', PyInt 42)]) =
     (Reply 500 [(py ''error'', PyStr (py ''An unexpected server error occurred''))], [])
   \<and> predict offline (PyDict [(py ''name'', PyNone), (py ''model'', PyStr (py ''gpt-4.1''))]) =
     (Reply 500 [(py ''error'', PyStr (py ''An unexpected server error occurred''))], [])"
proof -
  have a: "map_of [(py ''name'', PyInt 42)] (py ''name'') = Some (PyInt 42)" "\<forall>s. PyInt 42 \<noteq> PyStr s"
    by simp_all
  have b: "map_of [(py ''name'', PyNone), (py ''model'', PyStr (py ''gpt-4.1''))] (py ''name'') = Some PyNone"
    "\<forall>s. PyNone \<noteq> PyStr s"
    by simp_all
  from name_not_string_server_error [OF a, of offline] name_not_string_server_error [OF b, of offline]
  show ?thesis by simp
qed

section \<open>Verdicts and their reasons\<close>

lemma precheck_reason: "precheck_name E n = (False, x) \<Longrightarrow> \<exists>c. x = Some c"
  by (auto simp: precheck_name_def split: if_splits)

lemma json_verdict_shape:
  assumes "json_verdict E name s = Reply 200 body"
  shows "body = [(py ''name'', PyStr name), (py ''prediction'', PyStr (py ''Realistic''))]
     \<or> (\<exists>d. json_loads E s = Some (PyDict d)
            \<and> dict_get d (py ''prediction'') PyNone = PyStr (py ''Not Realistic'')
            \<and> body = [(py ''name'', PyStr name), (py ''prediction'', PyStr (py ''Not Realistic'')),
                       (py ''reason'', case map_of d (py ''reason'') of
                                         Some v \<Rightarrow> v
                                       | None \<Rightarrow> PyStr (py ''Reason not provided by AI.''))])"
proof (cases "json_loads E s")
  case None
  with assms show ?thesis
    by (simp add: json_verdict_def error_reply_def)
next
  case (Some result)
  show ?thesis
  proof (cases result)
    case (PyDict d)
    with Some assms show ?thesis
      by (auto simp: json_verdict_def error_reply_def Let_def dict_get_def split: if_splits)
  qed (use Some assms in \<open>simp_all add: json_verdict_def error_reply_def\<close>)
qed

lemma remote_outcome_shape:
  assumes "remote_outcome E name req ex = Reply 200 body"
  shows "body = [(py ''name'', PyStr name), (py ''prediction'', PyStr (py ''Realistic''))]
     \<or> (\<exists>s d. json_loads E s = Some (PyDict d)
            \<and> dict_get d (py ''prediction'') PyNone = PyStr (py ''Not Realistic'')
            \<and> body = [(py ''name'', PyStr name), (py ''prediction'', PyStr (py ''Not Realistic'')),
                       (py ''reason'', case map_of d (py ''reason'') of
                                         Some v \<Rightarrow> v
                                       | None \<Rightarrow> PyStr (py ''Reason not provided by AI.''))])"
proof (cases "chat_create E req")
  case (Inl msg)
  with assms show ?thesis by (simp add: remote_outcome_def error_reply_def)
next
  case (Inr content)
  show ?thesis
  proof (cases content)
    case None
    with Inr assms show ?thesis by (simp add: remote_outcome_def error_reply_def)
  next
    case (Some c)
    with Inr assms have "json_verdict E name (ex (str_strip c)) = Reply 200 body"
      by (simp add: remote_outcome_def)
    from json_verdict_shape [OF this] show ?thesis by blast
  qed
qed

lemma predict_shape:
  assumes "predict E data = (out, calls)"
  shows "(\<exists>msg. out = error_reply 400 msg) \<or> (\<exists>msg. out = error_reply 500 msg)
     \<or> (\<exists>name c. out = Reply 200 [(py ''name'', PyStr name),
                                  (py ''prediction'', PyStr (py ''Not Realistic'')),
                                  (py ''reason'', PyStr (reason_text c))])
     \<or> (\<exists>name req. out = remote_outcome E name req inline_extract)"
proof (cases "truthy data")
  case False
  with assms show ?thesis by (auto simp: predict_def)
next
  case True
  show ?thesis
  proof (cases data)
    case (PyDict d)
    show ?thesis
    proof (cases "dict_get d (py ''name'') (PyStr [])")
      case (PyStr raw)
      obtain valid reason where pre: "precheck_name E (normalize_name E raw) = (valid, reason)"
        by (cases "precheck_name E (normalize_name E raw)") auto
      show ?thesis
      proof (cases valid)
        case True
        with \<open>truthy data\<close> PyDict PyStr pre assms show ?thesis
          by (simp add: predict_def Let_def split: if_splits) blast+
      next
        case False
        with pre have "precheck_name E (normalize_name E raw) = (False, reason)" by simp
        then obtain c where "reason = Some c" using precheck_reason by blast
        with False \<open>truthy data\<close> PyDict PyStr pre assms show ?thesis
          by (simp add: predict_def Let_def split: if_splits) blast+
      qed
    qed (use True PyDict assms in \<open>auto simp: predict_def server_error_def\<close>)
  qed (use True assms in \<open>auto simp: predict_def server_error_def\<close>)
qed

lemma predict_app_shape:
  assumes "predict_app E data = (out, calls)"
  shows "(\<exists>msg. out = error_reply 400 msg) \<or> (\<exists>msg. out = error_reply 500 msg)
     \<or> (\<exists>name req. out = remote_outcome E name req extract_json_from_response)"
proof (cases "truthy data")
  case False
  with assms show ?thesis by (auto simp: predict_app_def)
next
  case True
  show ?thesis
  proof (cases data)
    case (PyDict d)
    show ?thesis
    proof (cases "dict_get d (py ''name'') (PyStr [])")
      case (PyStr raw)
      with True PyDict assms show ?thesis
        by (simp add: predict_app_def Let_def split: if_splits) blast+
    qed (use True PyDict assms in \<open>auto simp: predict_app_def server_error_def\<close>)
  qed (use True assms in \<open>auto simp: predict_app_def server_error_def\<close>)
qed

lemma john: "normalize_name E (py ''john doe'') = py ''John Doe''"
  "precheck_name E (py ''John Doe'') = (True, None)"
  by (simp_all add: norm_defs char_defs precheck_defs)

lemma john_app: "normalize_app (py ''john doe'') = py ''john doe''"
  by (simp add: norm_defs char_defs)

lemma predict_john:
  "predict (replying content) (PyDict [(py ''name'', PyStr (py ''john doe''))]) =
     (json_verdict (replying content) (py ''John Doe'') (inline_extract (str_strip content)),
      [request (PyStr (py ''gpt-4.1-nano'')) (py ''John Doe'')])"
  by (simp add: eval_defs remote_outcome_def replying_def sample_env_def)

lemma predict_app_john:
  "predict_app (replying content) (PyDict [(py ''name'', PyStr (py ''john doe''))]) =
     (json_verdict (replying content) (py ''john doe'') (extract_json_from_response (str_strip content)),
      [request_app (PyStr (py ''gpt-4.1-nano'')) (py ''john doe'')])"
  by (simp add: eval_defs remote_outcome_def replying_def sample_env_def)

lemma unfenced_samples:
  "inline_extract (str_strip reply_realistic_reason) = reply_realistic_reason"
  "inline_extract (str_strip reply_not_realistic) = reply_not_realistic"
  "inline_extract (str_strip reply_keyboard) = reply_keyboard"
  "inline_extract (str_strip reply_brace_fence) = reply_brace_fence"
  "inline_extract (str_strip reply_null_reason) = reply_null_reason"
  "extract_json_from_response (str_strip reply_null_reason) = reply_null_reason"
  "extract_json_from_response (str_strip reply_keyboard) = reply_keyboard"
  "extract_json_from_response (str_strip reply_brace_fence) = reply_brace_fence"
  by (simp_all add: sample_defs inline_extract_def extract_json_from_response_def fence_at_def str_strip_def char_defs)

lemma loads_samples:
  "json_loads (replying c) reply_realistic_reason =
     Some (PyDict [(py ''prediction'', PyStr (py ''Realistic'')), (py ''reason'', PyStr (py ''plain''))])"
  "json_loads (replying c) reply_not_realistic = Some (PyDict [(py ''prediction'', PyStr (py ''Not Realistic''))])"
  "json_loads (replying c) reply_keyboard =
     Some (PyDict [(py ''prediction'', PyStr (py ''Not Realistic'')),
                 (py ''reason'', PyStr (py ''keyboard pattern''))])"
  "json_loads (replying c) reply_brace_fence =
     Some (PyDict [(py ''prediction'', PyStr (py ''Not Realistic'')),
                 (py ''reason'', PyStr (py ''}```''))])"
  "json_loads (replying c) reply_null_reason =
     Some (PyDict [(py ''prediction'', PyStr (py ''Not Realistic'')),
                 (py ''reason'', PyNone)])"
  by (simp_all add: replying_def sample_env_def sample_loads_def)
     (simp_all add: reply_realistic_def reply_realistic_reason_def
  reply_not_realistic_def reply_keyboard_def reply_brace_fence_def reply_null_reason_def py_def)

text \<open>
  C7, as the claim states it, fails: the reason of a reply is handed on without a look at its
  type. A reply whose reason is \<open>null\<close> gives a verdict Not Realistic whose reason is \<open>null\<close>,
  which is neither a string of the model nor the fixed text.
\<close>

theorem verdict_reason_counterexample:
  "json_loads (replying reply_null_reason) reply_null_reason =
     Some (PyDict [(py ''prediction'', PyStr (py ''Not Realistic'')), (py ''reason'', PyNone)])
   \<and> predict (replying reply_null_reason) (PyDict [(py ''name'', PyStr (py ''john doe''))]) =
     (Reply 200 [(py ''name'', PyStr (py ''John Doe'')), (py ''prediction'', PyStr (py ''Not Realistic'')),
                 (py ''reason'', PyNone)],
      [request (PyStr (py ''gpt-4.1-nano'')) (py ''John Doe'')])
   \<and> predict_app (replying reply_null_reason) (PyDict [(py ''name'', PyStr (py ''john doe''))]) =
     (Reply 200 [(py ''name'', PyStr (py ''john doe'')), (py ''prediction'', PyStr (py ''Not Realistic'')),
                 (py ''reason'', PyNone)],
      [request_app (PyStr (py ''gpt-4.1-nano'')) (py ''john doe'')])
   \<and> PyNone \<noteq> PyStr (py ''Reason not provided by AI.'')"
  by (simp add: predict_john predict_app_john unfenced_samples loads_samples json_verdict_def
      dict_get_def keys_distinct)

text \<open>
  C7, amended. When the reply of the model parses to an object whose prediction is
  \<open>Realistic\<close>, the response is the verdict Realistic with the name and the prediction only,
  whatever else the reply holds. When the prediction is \<open>Not Realistic\<close>, the response carries a
  reason: the value that the reply has under \<open>reason\<close> when it has the key, which is the string
  of the model when that value is a string and is handed on as it is (its type is not checked)
  otherwise, and the fixed text \<open>Reason not provided by AI.\<close> when the reply has no such key.
  In \<open>app-precheck.py\<close> and in \<open>app.py\<close>, every response with status 200 is such a verdict, or,
  in \<open>app-precheck.py\<close>, the verdict Not Realistic of the Pre-check with the text of its reason.
\<close>

theorem verdict_reason:
  "(json_loads E s = Some (PyDict r) \<and> dict_get r (py ''prediction'') PyNone = PyStr (py ''Realistic'')
      \<longrightarrow> json_verdict E name s =
            Reply 200 [(py ''name'', PyStr name), (py ''prediction'', PyStr (py ''Realistic''))])
   \<and> (json_loads E s = Some (PyDict r) \<and> dict_get r (py ''prediction'') PyNone = PyStr (py ''Not Realistic'')
        \<and> map_of r (py ''reason'') = Some (PyStr t)
      \<longrightarrow> json_verdict E name s =
            Reply 200 [(py ''name'', PyStr name), (py ''prediction'', PyStr (py ''Not Realistic'')),
                       (py ''reason'', PyStr t)])
   \<and> (json_loads E s = Some (PyDict r) \<and> dict_get r (py ''prediction'') PyNone = PyStr (py ''Not Realistic'')
        \<and> map_of r (py ''reason'') = None
      \<longrightarrow> json_verdict E name s =
            Reply 200 [(py ''name'', PyStr name), (py ''prediction'', PyStr (py ''Not Realistic'')),
                       (py ''reason'', PyStr (py ''Reason not provided by AI.''))])
   \<and> (json_loads E s = Some (PyDict r) \<and> dict_get r (py ''prediction'') PyNone = PyStr (py ''Not Realistic'')
        \<and> map_of r (py ''reason'') = Some v
      \<longrightarrow> json_verdict E name s =
            Reply 200 [(py ''name'', PyStr name), (py ''prediction'', PyStr (py ''Not Realistic'')),
                       (py ''reason'', v)])
   \<and> (predict E data = (Reply 200 body, calls) \<longrightarrow>
        (\<exists>n. body = [(py ''name'', PyStr n), (py ''prediction'', PyStr (py ''Realistic''))])
        \<or> (\<exists>n c. body = [(py ''name'', PyStr n), (py ''prediction'', PyStr (py ''Not Realistic'')),
                          (py ''reason'', PyStr (reason_text c))])
        \<or> (\<exists>n s' d. json_loads E s' = Some (PyDict d)
              \<and> dict_get d (py ''prediction'') PyNone = PyStr (py ''Not Realistic'')
              \<and> body = [(py ''name'', PyStr n), (py ''prediction'', PyStr (py ''Not Realistic'')),
                         (py ''reason'', case map_of d (py ''reason'') of
                                           Some v \<Rightarrow> v
                                         | None \<Rightarrow> PyStr (py ''Reason not provided by AI.''))]))
   \<and> (predict_app E data = (Reply 200 body, calls) \<longrightarrow>
        (\<exists>n. body = [(py ''name'', PyStr n), (py ''prediction'', PyStr (py ''Realistic''))])
        \<or> (\<exists>n s' d. json_loads E s' = Some (PyDict d)
              \<and> dict_get d (py ''prediction'') PyNone = PyStr (py ''Not Realistic'')
              \<and> body = [(py ''name'', PyStr n), (py ''prediction'', PyStr (py ''Not Realistic'')),
                         (py ''reason'', case map_of d (py ''reason'') of
                                           Some v \<Rightarrow> v
                                         | None \<Rightarrow> PyStr (py ''Reason not provided by AI.''))]))"
proof -
  have realistic: "json_verdict E name s =
      Reply 200 [(py ''name'', PyStr name), (py ''prediction'', PyStr (py ''Realistic''))]"
    if "json_loads E s = Some (PyDict r)"
      "dict_get r (py ''prediction'') PyNone = PyStr (py ''Realistic'')"
    using that by (simp add: json_verdict_def)
  have rejected: "json_verdict E name s =
      Reply 200 [(py ''name'', PyStr name), (py ''prediction'', PyStr (py ''Not Realistic'')),
                 (py ''reason'', dict_get r (py ''reason'') (PyStr (py ''Reason not provided by AI.'')))]"
    if "json_loads E s = Some (PyDict r)"
      "dict_get r (py ''prediction'') PyNone = PyStr (py ''Not Realistic'')"
    using that by (simp add: json_verdict_def keys_distinct)
  have app_precheck: "(\<exists>n. body = [(py ''name'', PyStr n), (py ''prediction'', PyStr (py ''Realistic''))])
        \<or> (\<exists>n c. body = [(py ''name'', PyStr n), (py ''prediction'', PyStr (py ''Not Realistic'')),
                          (py ''reason'', PyStr (reason_text c))])
        \<or> (\<exists>n s' d. json_loads E s' = Some (PyDict d)
              \<and> dict_get d (py ''prediction'') PyNone = PyStr (py ''Not Realistic'')
              \<and> body = [(py ''name'', PyStr n), (py ''prediction'', PyStr (py ''Not Realistic'')),
                         (py ''reason'', case map_of d (py ''reason'') of
                                           Some v \<Rightarrow> v
                                         | None \<Rightarrow> PyStr (py ''Reason not provided by AI.''))])"
    if "predict E data = (Reply 200 body, calls)"
  proof -
    from predict_shape [OF that] consider
        (error) msg st where "Reply 200 body = error_reply st msg" "st = 400 \<or> st = 500"
      | (precheck) n c where "Reply 200 body = Reply 200 [(py ''name'', PyStr n),
            (py ''prediction'', PyStr (py ''Not Realistic'')), (py ''reason'', PyStr (reason_text c))]"
      | (remote) n req where "Reply 200 body = remote_outcome E n req inline_extract"
      by blast
    then show ?thesis
    proof cases
      case error
      then show ?thesis by (auto simp: error_reply_def)
    next
      case precheck
      then show ?thesis by blast
    next
      case remote
      from remote_outcome_shape [OF remote [symmetric]] show ?thesis by blast
    qed
  qed
  have app: "(\<exists>n. body = [(py ''name'', PyStr n), (py ''prediction'', PyStr (py ''Realistic''))])
        \<or> (\<exists>n s' d. json_loads E s' = Some (PyDict d)
              \<and> dict_get d (py ''prediction'') PyNone = PyStr (py ''Not Realistic'')
              \<and> body = [(py ''name'', PyStr n), (py ''prediction'', PyStr (py ''Not Realistic'')),
                         (py ''reason'', case map_of d (py ''reason'') of
                                           Some v \<Rightarrow> v
                                         | None \<Rightarrow> PyStr (py ''Reason not provided by AI.''))])"
    if "predict_app E data = (Reply 200 body, calls)"
  proof -
    from predict_app_shape [OF that] consider
        (error) msg st where "Reply 200 body = error_reply st msg" "st = 400 \<or> st = 500"
      | (remote) n req where "Reply 200 body = remote_outcome E n req extract_json_from_response"
      by blast
    then show ?thesis
    proof cases
      case error
      then show ?thesis by (auto simp: error_reply_def)
    next
      case remote
      from remote_outcome_shape [OF remote [symmetric]] show ?thesis by blast
    qed
  qed
  show ?thesis
  proof (intro conjI impI)
    assume "json_loads E s = Some (PyDict r)
      \<and> dict_get r (py ''prediction'') PyNone = PyStr (py ''Realistic'')"
    then show "json_verdict E name s =
      Reply 200 [(py ''name'', PyStr name), (py ''prediction'', PyStr (py ''Realistic''))]"
      using realistic by blast
  next
    assume "json_loads E s = Some (PyDict r)
      \<and> dict_get r (py ''prediction'') PyNone = PyStr (py ''Not Realistic'')
      \<and> map_of r (py ''reason'') = Some (PyStr t)"
    then show "json_verdict E name s =
      Reply 200 [(py ''name'', PyStr name), (py ''prediction'', PyStr (py ''Not Realistic'')),
                 (py ''reason'', PyStr t)]"
      using rejected by (simp add: dict_get_def)
  next
    assume "json_loads E s = Some (PyDict r)
      \<and> dict_get r (py ''prediction'') PyNone = PyStr (py ''Not Realistic'')
      \<and> map_of r (py ''reason'') = None"
    then show "json_verdict E name s =
      Reply 200 [(py ''name'', PyStr name), (py ''prediction'', PyStr (py ''Not Realistic'')),
                 (py ''reason'', PyStr (py ''Reason not provided by AI.''))]"
      using rejected by (simp add: dict_get_def)
  next
    assume "json_loads E s = Some (PyDict r)
      \<and> dict_get r (py ''prediction'') PyNone = PyStr (py ''Not Realistic'')
      \<and> map_of r (py ''reason'') = Some v"
    then show "json_verdict E name s =
      Reply 200 [(py ''name'', PyStr name), (py ''prediction'', PyStr (py ''Not Realistic'')),
                 (py ''reason'', v)]"
      using rejected by (simp add: dict_get_def)
  next
    assume "predict E data = (Reply 200 body, calls)"
    then show "(\<exists>n. body = [(py ''name'', PyStr n), (py ''prediction'', PyStr (py ''Realistic''))])
        \<or> (\<exists>n c. body = [(py ''name'', PyStr n), (py ''prediction'', PyStr (py ''Not Realistic'')),
                          (py ''reason'', PyStr (reason_text c))])
        \<or> (\<exists>n s' d. json_loads E s' = Some (PyDict d)
              \<and> dict_get d (py ''prediction'') PyNone = PyStr (py ''Not Realistic'')
              \<and> body = [(py ''name'', PyStr n), (py ''prediction'', PyStr (py ''Not Realistic'')),
                         (py ''reason'', case map_of d (py ''reason'') of
                                           Some v \<Rightarrow> v
                                         | None \<Rightarrow> PyStr (py ''Reason not provided by AI.''))])"
      by (rule app_precheck)
  next
    assume "predict_app E data = (Reply 200 body, calls)"
    then show "(\<exists>n. body = [(py ''name'', PyStr n), (py ''prediction'', PyStr (py ''Realistic''))])
        \<or> (\<exists>n s' d. json_loads E s' = Some (PyDict d)
              \<and> dict_get d (py ''prediction'') PyNone = PyStr (py ''Not Realistic'')
              \<and> body = [(py ''name'', PyStr n), (py ''prediction'', PyStr (py ''Not Realistic'')),
                         (py ''reason'', case map_of d (py ''reason'') of
                                           Some v \<Rightarrow> v
                                         | None \<Rightarrow> PyStr (py ''Reason not provided by AI.''))])"
      by (rule app)
  qed
qed

theorem verdict_reason_witness:
  "json_verdict (replying []) (py ''John Doe'') reply_realistic_reason =
       Reply 200 [(py ''name'', PyStr (py ''John Doe'')), (py ''prediction'', PyStr (py ''Realistic''))]
   \<and> json_verdict (replying []) (py ''Qwert'') reply_keyboard =
       Reply 200 [(py ''name'', PyStr (py ''Qwert'')), (py ''prediction'', PyStr (py ''Not Realistic'')),
                  (py ''reason'', PyStr (py ''keyboard pattern''))]
   \<and> json_verdict (replying []) (py ''John Doe'') reply_not_realistic =
       Reply 200 [(py ''name'', PyStr (py ''John Doe'')), (py ''prediction'', PyStr (py ''Not Realistic'')),
                  (py ''reason'', PyStr (py ''Reason not provided by AI.''))]
   \<and> json_verdict (replying []) (py ''John Doe'') reply_null_reason =
       Reply 200 [(py ''name'', PyStr (py ''John Doe'')), (py ''prediction'', PyStr (py ''Not Realistic'')),
                  (py ''reason'', PyNone)]
   \<and> predict (replying reply_realistic_reason) (PyDict [(py ''name'', PyStr (py ''john doe''))]) =
     (Reply 200 [(py ''name'', PyStr (py ''John Doe'')), (py ''prediction'', PyStr (py ''Realistic''))],
      [request (PyStr (py ''gpt-4.1-nano'')) (py ''John Doe'')])
   \<and> predict_app (replying reply_keyboard) (PyDict [(py ''name'', PyStr (py ''john doe''))]) =
     (Reply 200 [(py ''name'', PyStr (py ''john doe'')), (py ''prediction'', PyStr (py ''Not Realistic'')),
                 (py ''reason'', PyStr (py ''keyboard pattern''))],
      [request_app (PyStr (py ''gpt-4.1-nano'')) (py ''john doe'')])"
proof -
  let ?r = "[(py ''prediction'', PyStr (py ''Realistic'')), (py ''reason'', PyStr (py ''plain''))]"
  let ?n = "[(py ''prediction'', PyStr (py ''Not Realistic''))]"
  let ?k = "[(py ''prediction'', PyStr (py ''Not Realistic'')), (py ''reason'', PyStr (py ''keyboard pattern''))]"
  let ?z = "[(py ''prediction'', PyStr (py ''Not Realistic'')), (py ''reason'', PyNone)]"
  let ?data = "PyDict [(py ''name'', PyStr (py ''john doe''))]"
  have r: "dict_get ?r (py ''prediction'') PyNone = PyStr (py ''Realistic'')"
    and n: "dict_get ?n (py ''prediction'') PyNone = PyStr (py ''Not Realistic'')"
      "map_of ?n (py ''reason'') = None"
    and k: "dict_get ?k (py ''prediction'') PyNone = PyStr (py ''Not Realistic'')"
      "map_of ?k (py ''reason'') = Some (PyStr (py ''keyboard pattern''))"
    and z: "dict_get ?z (py ''prediction'') PyNone = PyStr (py ''Not Realistic'')"
      "map_of ?z (py ''reason'') = Some PyNone"
    by (simp_all add: dict_get_def keys_distinct)
  have 1: "json_verdict (replying c) name reply_realistic_reason =
       Reply 200 [(py ''name'', PyStr name), (py ''prediction'', PyStr (py ''Realistic''))]" for c name
    using verdict_reason [where E = "replying c" and s = reply_realistic_reason
        and r = ?r and name = name] r loads_samples(1)
    by blast
  have 2: "json_verdict (replying c) name reply_keyboard =
       Reply 200 [(py ''name'', PyStr name), (py ''prediction'', PyStr (py ''Not Realistic'')),
                  (py ''reason'', PyStr (py ''keyboard pattern''))]" for c name
    using verdict_reason [where E = "replying c" and s = reply_keyboard
        and r = ?k and name = name and t = "py ''keyboard pattern''"] k loads_samples(3)
    by blast
  have 3: "json_verdict (replying []) (py ''John Doe'') reply_not_realistic =
       Reply 200 [(py ''name'', PyStr (py ''John Doe'')), (py ''prediction'', PyStr (py ''Not Realistic'')),
                  (py ''reason'', PyStr (py ''Reason not provided by AI.''))]"
    using verdict_reason [where E = "replying []" and s = reply_not_realistic
        and r = ?n and name = "py ''John Doe''"] n loads_samples(2)
    by blast
  have 4: "json_verdict (replying []) (py ''John Doe'') reply_null_reason =
       Reply 200 [(py ''name'', PyStr (py ''John Doe'')), (py ''prediction'', PyStr (py ''Not Realistic'')),
                  (py ''reason'', PyNone)]"
    using verdict_reason [where E = "replying []" and s = reply_null_reason
        and r = ?z and name = "py ''John Doe''" and v = PyNone] z loads_samples(5)
    by blast
  have 5: "predict (replying reply_realistic_reason) ?data =
     (Reply 200 [(py ''name'', PyStr (py ''John Doe'')), (py ''prediction'', PyStr (py ''Realistic''))],
      [request (PyStr (py ''gpt-4.1-nano'')) (py ''John Doe'')])"
    by (simp add: predict_john unfenced_samples 1)
  have 6: "predict_app (replying reply_keyboard) ?data =
     (Reply 200 [(py ''name'', PyStr (py ''john doe'')), (py ''prediction'', PyStr (py ''Not Realistic'')),
                 (py ''reason'', PyStr (py ''keyboard pattern''))],
      [request_app (PyStr (py ''gpt-4.1-nano'')) (py ''john doe'')])"
    by (simp add: predict_app_john unfenced_samples 2)
  from 1 2 3 4 5 6 show ?thesis by blast
qed

section \<open>Replies in a code fence\<close>

lemma startswith_append: "startswith s sub \<Longrightarrow> startswith (s @ t) sub"
proof -
  assume a: "startswith s sub"
  then have "length (take (length sub) s) = length sub"
    by (simp only: startswith_def)
  then have "length sub \<le> length s" by simp
  with a show ?thesis by (simp add: startswith_def)
qed

lemma fence_open_fence: "fence_open t = Some rest \<Longrightarrow> startswith t fence"
  by (induction t rule: fence_open.induct) (auto simp: startswith_def split: if_splits)

lemma brace_fence_suffix: "brace_fence b \<Longrightarrow> brace_fence (a @ b)"
  by (induction a) auto

lemma lazy_body_found: "lazy_body t = Some g \<Longrightarrow> brace_fence t"
  by (induction t arbitrary: g) (auto split: if_splits)

lemma fence_open_suffix: "fence_open t = Some rest \<Longrightarrow> t = take 7 t @ rest"
  by (induction t rule: fence_open.induct) (auto split: if_splits)

lemma fence_at_found:
  assumes "fence_at t = Some g"
  shows "brace_fence t"
proof -
  from assms obtain rest c cs g' where rest: "fence_open t = Some rest"
    and drop: "dropWhile is_space rest = c # cs" and body: "lazy_body cs = Some g'"
    by (auto simp: fence_at_def split: option.splits list.splits if_splits)
  from body have "brace_fence (c # cs)" using lazy_body_found by simp
  moreover have "rest = takeWhile is_space rest @ c # cs"
    using drop by (metis takeWhile_dropWhile_id)
  ultimately have "brace_fence rest" using brace_fence_suffix by metis
  moreover have "t = take 7 t @ rest" using rest by (rule fence_open_suffix)
  ultimately show ?thesis using brace_fence_suffix by metis
qed

lemma fence_search_found: "fence_search t = Some g \<Longrightarrow> brace_fence t"
proof (induction t)
  case Nil
  then show ?case by simp
next
  case (Cons c cs)
  show ?case
  proof (cases "fence_at (c # cs)")
    case None
    with Cons show ?thesis by simp
  next
    case (Some g')
    then show ?thesis by (rule fence_at_found)
  qed
qed

lemma no_brace_search: "\<not> brace_fence t \<Longrightarrow> fence_search t = None"
  using fence_search_found by (cases "fence_search t") auto

lemma fence_before_brace:
  assumes "startswith (y @ 125 # z) fence"
  shows "startswith y fence"
  using assms by (cases y; cases "tl y"; cases "tl (tl y)") (auto simp: startswith_def)

lemma closing_inside:
  "startswith (dropWhile is_space (x @ 125 # z)) fence \<Longrightarrow>
   startswith (dropWhile is_space (x @ [125])) fence"
proof (induction x)
  case Nil
  then show ?case by (simp add: is_space_def startswith_def)
next
  case (Cons a x)
  show ?case
  proof (cases "is_space a")
    case True
    with Cons show ?thesis by simp
  next
    case False
    with Cons.prems have "startswith ((a # x) @ 125 # z) fence" by simp
    then have "startswith (a # x) fence" by (rule fence_before_brace)
    then have "startswith ((a # x) @ [125]) fence" by (rule startswith_append)
    with False show ?thesis by simp
  qed
qed

lemma spaces_then_fence:
  "list_all is_space ws \<Longrightarrow> \<not> is_space c \<Longrightarrow> dropWhile is_space (ws @ c # t) = c # t"
  by (induction ws) auto

lemma lazy_body_exact:
  assumes "\<not> brace_fence (x @ [125])" "list_all is_space ws"
  shows "lazy_body (x @ [125] @ ws @ fence) = Some (x @ [125])"
  using assms(1)
proof (induction x)
  case Nil
  have "dropWhile is_space (ws @ fence) = fence"
    using spaces_then_fence [OF assms(2), of 96 "[96, 96]"] by (simp add: is_space_def)
  then show ?case by (simp add: startswith_def)
next
  case (Cons c x)
  have "\<not> (c = 125 \<and> startswith (dropWhile is_space (x @ 125 # ws @ fence)) fence)"
  proof
    assume a: "c = 125 \<and> startswith (dropWhile is_space (x @ 125 # ws @ fence)) fence"
    then have "startswith (dropWhile is_space (x @ [125])) fence" using closing_inside by blast
    with a Cons.prems show False by simp
  qed
  moreover from Cons have "lazy_body (x @ [125] @ ws @ fence) = Some (x @ [125])" by simp
  ultimately show ?case by simp
qed

lemma fence_open_append: "fence_open tag = Some [] \<Longrightarrow> fence_open (tag @ rest) = Some rest"
  by (induction tag rule: fence_open.induct) (auto split: if_splits)

lemma payload_shape:
  assumes "startswith p [123]" "endswith p [125]"
  obtains x where "p = 123 # x @ [125]"
proof -
  from assms(1) obtain q where q: "p = 123 # q"
    by (cases p) (auto simp: startswith_def)
  with assms(2) have "q \<noteq> []" "last q = 125"
    by (auto simp: endswith_def startswith_def split: if_splits)
       (cases q rule: rev_cases; auto)+
  then have "q = butlast q @ [125]"
    by (metis append_butlast_last_id)
  with q that show thesis by metis
qed

lemma fenced_search:
  assumes "startswith p [123]" "endswith p [125]" "\<not> brace_fence p"
      and "fence_open tag = Some []" "list_all is_space ws1" "list_all is_space ws2"
  shows "fence_search (fenced tag ws1 p ws2) = Some p"
proof -
  from assms(1,2) obtain x where p: "p = 123 # x @ [125]" by (rule payload_shape)
  from assms(3) have "\<not> brace_fence (x @ [125])" by (auto simp: p)
  then have body: "lazy_body (x @ [125] @ ws2 @ fence) = Some (x @ [125])"
    using assms(6) by (rule lazy_body_exact)
  have "dropWhile is_space (ws1 @ p @ ws2 @ fence) = p @ ws2 @ fence"
    unfolding p using spaces_then_fence [OF assms(5), of 123] by (simp add: is_space_def)
  moreover have "fence_open (tag @ ws1 @ p @ ws2 @ fence) = Some (ws1 @ p @ ws2 @ fence)"
    using assms(4) by (rule fence_open_append)
  ultimately have at: "fence_at (fenced tag ws1 p ws2) = Some p"
    using body by (simp add: fence_at_def fenced_def p)
  from assms(4) obtain c cs where "tag = c # cs" by (cases tag) auto
  then have "fenced tag ws1 p ws2 = c # (cs @ ws1 @ p @ ws2 @ fence)" by (simp add: fenced_def)
  with at show ?thesis by (metis fence_search.simps(2) option.simps(5))
qed

lemma strip_payload:
  assumes "startswith p [123]" "endswith p [125]"
  shows "str_strip p = p"
proof -
  from assms obtain x where "p = 123 # x @ [125]" by (rule payload_shape)
  then show ?thesis by (intro strip_id) (auto simp: is_space_def)
qed

lemma strip_fenced:
  assumes "fence_open tag = Some []"
  shows "str_strip (fenced tag ws1 p ws2) = fenced tag ws1 p ws2"
proof -
  from assms have "startswith tag fence" by (rule fence_open_fence)
  then obtain t where "tag = 96 # t" by (cases tag) (auto simp: startswith_def)
  then show ?thesis by (intro strip_id) (auto simp: fenced_def is_space_def)
qed

lemma dot_chat: "dot_between_words (E\<lparr>chat_create := f\<rparr>) s = dot_between_words E s"
  by (induction E s rule: dot_between_words.induct) (simp_all add: is_word_def)

lemma precheck_chat: "precheck_name (E\<lparr>chat_create := f\<rparr>) s = precheck_name E s"
  by (simp add: precheck_name_def dot_chat)

lemma capitalize_chat: "capitalize_word (E\<lparr>chat_create := f\<rparr>) = capitalize_word E"
  by (intro ext) (simp add: capitalize_word_def str_upper_def str_lower_def)

lemma normalize_chat: "normalize_name (E\<lparr>chat_create := f\<rparr>) s = normalize_name E s"
  by (simp add: normalize_name_def capitalize_chat)

lemma json_verdict_chat: "json_verdict (E\<lparr>chat_create := f\<rparr>) name s = json_verdict E name s"
  by (simp add: json_verdict_def cong: option.case_cong pyval.case_cong if_cong)

lemma remote_reply:
  "remote_outcome (E\<lparr>chat_create := \<lambda>req. Inr (Some c)\<rparr>) name req ex = json_verdict E name (ex (str_strip c))"
  by (simp add: remote_outcome_def json_verdict_chat)

lemma predict_reply:
  "predict (E\<lparr>chat_create := \<lambda>req. Inr (Some c)\<rparr>) data =
     (if \<not> truthy data then (error_reply 400 (py ''Invalid JSON payload''), [])
      else case data of
        PyDict d \<Rightarrow>
          (case dict_get d (py ''name'') (PyStr []) of
             PyStr raw \<Rightarrow>
               (let model = dict_get d (py ''model'') (PyStr (py ''gpt-4.1-nano''));
                    name = normalize_name E raw
                in if name = [] then (error_reply 400 (py ''No name provided''), [])
                   else
                     (let (valid, reason) = precheck_name E name
                      in if \<not> valid
                         then (Reply 200 [(py ''name'', PyStr name),
                                          (py ''prediction'', PyStr (py ''Not Realistic'')),
                                          (py ''reason'',
                                           case reason of None \<Rightarrow> PyNone
                                           | Some r \<Rightarrow> PyStr (reason_text r))], [])
                         else if model \<notin> set (map PyStr VALID_MODELS)
                         then (error_reply 400 invalid_model_text, [])
                         else (json_verdict E name (inline_extract (str_strip c)),
                               [request model name])))
           | _ \<Rightarrow> (server_error, []))
      | _ \<Rightarrow> (server_error, []))"
  by (simp add: predict_def remote_reply precheck_chat normalize_chat
      cong: if_cong pyval.case_cong prod.case_cong)

lemma predict_app_reply:
  "predict_app (E\<lparr>chat_create := \<lambda>req. Inr (Some c)\<rparr>) data =
     (if \<not> truthy data then (error_reply 400 (py ''Invalid JSON payload''), [])
      else case data of
        PyDict d \<Rightarrow>
          (case dict_get d (py ''name'') (PyStr []) of
             PyStr raw \<Rightarrow>
               (let model = dict_get d (py ''model'') (PyStr (py ''gpt-4.1-nano''));
                    name = normalize_app raw
                in if name = [] then (error_reply 400 (py ''No name provided''), [])
                   else if model \<notin> set (map PyStr VALID_MODELS)
                   then (error_reply 400 invalid_model_text, [])
                   else (json_verdict E name (extract_json_from_response (str_strip c)),
                         [request_app model name]))
           | _ \<Rightarrow> (server_error, []))
      | _ \<Rightarrow> (server_error, []))"
  by (simp add: predict_app_def remote_reply cong: if_cong pyval.case_cong)

lemma offline_reply: "offline\<lparr>chat_create := \<lambda>req. Inr (Some c)\<rparr> = replying c"
  by (simp add: offline_def replying_def sample_env_def)

lemmas fence_defs = inline_extract_def extract_json_from_response_def fence_at_def fenced_def
  str_strip_def startswith_def endswith_def

lemma cut_not_json: "json_loads (replying c) reply_cut = None"
  by (simp add: replying_def sample_env_def sample_loads_def)
     (simp add: reply_realistic_def reply_realistic_reason_def reply_not_realistic_def
       reply_keyboard_def reply_brace_fence_def reply_cut_def reply_null_reason_def py_def)

lemma fenced_brace_cut:
  "inline_extract (str_strip (fenced json_fence [10] reply_brace_fence [10])) = reply_cut"
  "extract_json_from_response (str_strip (fenced json_fence [10] reply_brace_fence [10])) = reply_cut"
  by (simp_all add: fence_defs sample_defs char_defs)

text \<open>
  Where the extraction does what it is meant to do: for every payload that starts with an
  opening brace, ends with a closing brace and has no closing brace followed, whitespace
  apart, by three backquotes, the reply made of the payload in a code fence annotated as json
  (in any letter case, with any whitespace around the payload) and the reply made of the
  payload alone give the same extracted text, the payload itself, in \<open>app.py\<close> and in
  \<open>app-precheck.py\<close>, and so the same response of the endpoint.
\<close>

lemma fenced_reply_same_extraction:
  assumes "startswith p [123]" and "endswith p [125]" and "\<not> brace_fence p"
    and "fence_open tag = Some []" and "list_all is_space ws1" and "list_all is_space ws2"
  shows "extract_json_from_response (str_strip (fenced tag ws1 p ws2)) = p
       \<and> extract_json_from_response (str_strip p) = p
       \<and> inline_extract (str_strip (fenced tag ws1 p ws2)) = p
       \<and> inline_extract (str_strip p) = p
       \<and> predict_app (E\<lparr>chat_create := \<lambda>req. Inr (Some (fenced tag ws1 p ws2))\<rparr>) data
           = predict_app (E\<lparr>chat_create := \<lambda>req. Inr (Some p)\<rparr>) data
       \<and> predict (E\<lparr>chat_create := \<lambda>req. Inr (Some (fenced tag ws1 p ws2))\<rparr>) data
           = predict (E\<lparr>chat_create := \<lambda>req. Inr (Some p)\<rparr>) data"
proof -
  have found: "fence_search (fenced tag ws1 p ws2) = Some p"
    using assms by (rule fenced_search)
  have bare: "fence_search p = None"
    using assms(3) by (rule no_brace_search)
  have sf: "str_strip (fenced tag ws1 p ws2) = fenced tag ws1 p ws2"
    using assms(4) by (rule strip_fenced)
  have sp: "str_strip p = p"
    using assms(1,2) by (rule strip_payload)
  have 1: "extract_json_from_response (str_strip (fenced tag ws1 p ws2)) = p"
    by (simp add: sf extract_json_from_response_def found)
  have 2: "extract_json_from_response (str_strip p) = p"
    by (simp add: sp extract_json_from_response_def bare)
  have 3: "inline_extract (str_strip (fenced tag ws1 p ws2)) = p"
    by (simp add: sf inline_extract_def found)
  have 4: "inline_extract (str_strip p) = p"
    by (simp add: sp inline_extract_def bare)
  have 5: "predict_app (E\<lparr>chat_create := \<lambda>req. Inr (Some (fenced tag ws1 p ws2))\<rparr>) data
           = predict_app (E\<lparr>chat_create := \<lambda>req. Inr (Some p)\<rparr>) data"
    by (simp only: predict_app_reply 1 2)
  have 6: "predict (E\<lparr>chat_create := \<lambda>req. Inr (Some (fenced tag ws1 p ws2))\<rparr>) data
           = predict (E\<lparr>chat_create := \<lambda>req. Inr (Some p)\<rparr>) data"
    by (simp only: predict_reply 3 4)
  from 1 2 3 4 5 6 show ?thesis by blast
qed


lemma fenced_samples:
  "extract_json_from_response (str_strip (fenced json_fence [10] reply_keyboard [10])) = reply_keyboard"
  "inline_extract (str_strip (fenced json_fence [10] reply_backquotes [32, 10])) = reply_backquotes"
proof -
  have keyboard: "startswith reply_keyboard [123]" "endswith reply_keyboard [125]"
    "\<not> brace_fence reply_keyboard"
    and backquotes: "startswith reply_backquotes [123]" "endswith reply_backquotes [125]"
    "\<not> brace_fence reply_backquotes"
    and fence: "fence_open json_fence = Some []"
    and spaces: "list_all is_space [10]" "list_all is_space [32, 10]"
    by (simp_all add: startswith_def endswith_def reply_keyboard_def reply_backquotes_def
        json_fence_def py_def is_space_def)
  show "extract_json_from_response (str_strip (fenced json_fence [10] reply_keyboard [10])) = reply_keyboard"
    using fenced_reply_same_extraction [OF keyboard fence spaces(1) spaces(1)] by blast
  show "inline_extract (str_strip (fenced json_fence [10] reply_backquotes [32, 10])) = reply_backquotes"
    using fenced_reply_same_extraction [OF backquotes fence spaces(1) spaces(2)] by blast
qed

text \<open>
  C8. The claim is what \<open>extract_json_from_response\<close> is written for (its docstring: it extracts
  the JSON content, removing the fence), and the code breaks it on a payload in which a
  closing brace is followed by three backquotes inside a string: the lazy pattern stops at
  that brace. For the payload \<open>reply_brace_fence\<close>, a JSON object whose reason is the text of a
  closing brace and three backquotes, the text taken out of the fenced reply is cut after the
  brace, the JSON parser refuses it and the endpoint answers with status 500, in
  \<open>app-precheck.py\<close> and in \<open>app.py\<close>; the payload alone gives its verdict.
\<close>

theorem fenced_reply_truncated:
  "startswith reply_brace_fence [123] \<and> endswith reply_brace_fence [125]
   \<and> inline_extract (str_strip (fenced json_fence [10] reply_brace_fence [10])) = reply_cut
   \<and> inline_extract (str_strip reply_brace_fence) = reply_brace_fence
   \<and> fst (predict (replying (fenced json_fence [10] reply_brace_fence [10]))
            (PyDict [(py ''name'', PyStr (py ''john doe''))]))
       = Reply 500 [(py ''error'', PyStr (py ''Invalid JSON response format from model''))]
   \<and> fst (predict (replying reply_brace_fence) (PyDict [(py ''name'', PyStr (py ''john doe''))]))
       = Reply 200 [(py ''name'', PyStr (py ''John Doe'')),
                    (py ''prediction'', PyStr (py ''Not Realistic'')),
                    (py ''reason'', PyStr (py ''}```''))]
   \<and> fst (predict_app (replying (fenced json_fence [10] reply_brace_fence [10]))
            (PyDict [(py ''name'', PyStr (py ''john doe''))]))
       = Reply 500 [(py ''error'', PyStr (py ''Invalid JSON response format from model''))]
   \<and> fst (predict_app (replying reply_brace_fence) (PyDict [(py ''name'', PyStr (py ''john doe''))]))
       = Reply 200 [(py ''name'', PyStr (py ''john doe'')),
                    (py ''prediction'', PyStr (py ''Not Realistic'')),
                    (py ''reason'', PyStr (py ''}```''))]"
proof -
  have shape: "startswith reply_brace_fence [123] \<and> endswith reply_brace_fence [125]"
    by (simp add: startswith_def endswith_def reply_brace_fence_def py_def)
  have bad: "json_verdict (replying c) name reply_cut
      = Reply 500 [(py ''error'', PyStr (py ''Invalid JSON response format from model''))]" for c name
    by (simp add: json_verdict_def cut_not_json error_reply_def)
  have good: "json_verdict (replying c) name reply_brace_fence
      = Reply 200 [(py ''name'', PyStr name), (py ''prediction'', PyStr (py ''Not Realistic'')),
                    (py ''reason'', PyStr (py ''}```''))]" for c name
    by (simp add: json_verdict_def loads_samples dict_get_def keys_distinct)
  show ?thesis
    by (simp add: shape predict_john predict_app_john fenced_brace_cut unfenced_samples bad good)
qed

section \<open>Replies without a code fence\<close>

lemma no_open_search: "\<not> has_fence_open t \<Longrightarrow> fence_search t = None"
  by (induction t) (auto simp: fence_at_def)

lemma fence_open_grows: "fence_open a = Some r \<Longrightarrow> fence_open (a @ b) = Some (r @ b)"
  by (induction a rule: fence_open.induct) (auto split: if_splits)

lemma open_append: "has_fence_open a \<Longrightarrow> has_fence_open (a @ b)"
proof (induction a)
  case Nil
  then show ?case by simp
next
  case (Cons c cs)
  then show ?case using fence_open_grows [of "c # cs" _ b] by auto
qed

lemma open_dropWhile: "has_fence_open (dropWhile P t) \<Longrightarrow> has_fence_open t"
  by (induction t) (auto split: if_splits)

lemma open_strip:
  assumes "has_fence_open (str_strip t)"
  shows "has_fence_open t"
proof -
  let ?v = "dropWhile is_space t"
  have "?v = rev (dropWhile is_space (rev ?v)) @ rev (takeWhile is_space (rev ?v))"
    by (metis rev_append rev_rev_ident takeWhile_dropWhile_id)
  moreover from assms have "has_fence_open (rev (dropWhile is_space (rev ?v)))"
    by (simp add: str_strip_def)
  ultimately have "has_fence_open ?v"
    using open_append by metis
  then show ?thesis by (rule open_dropWhile)
qed

lemma strip_strip: "str_strip (str_strip s) = str_strip s"
proof (cases "str_strip s = []")
  case True
  have "str_strip [] = []" by (simp add: str_strip_def)
  with True show ?thesis by simp
next
  case False
  then show ?thesis using strip_ends by (intro strip_id)
qed

text \<open>
  C9. When the pattern of the fence finds nothing in a reply, and so for every reply that has
  no opening fence annotated as json, \<open>extract_json_from_response\<close> returns the stripped
  reply: the test on the braces changes nothing. In \<open>app.py\<close> such a reply goes whole, stripped,
  to the JSON parser, whether it looks like JSON or not.
\<close>

theorem unfenced_reply_whole:
  "(fence_search text = None \<longrightarrow> extract_json_from_response text = str_strip text)
   \<and> (\<not> has_fence_open text \<longrightarrow>
        fence_search text = None \<and> extract_json_from_response text = str_strip text)
   \<and> (dict_get d (py ''name'') (PyStr []) = PyStr raw \<and> normalize_app raw \<noteq> []
        \<and> dict_get d (py ''model'') (PyStr (py ''gpt-4.1-nano'')) = model
        \<and> model \<in> set (map PyStr VALID_MODELS)
        \<and> chat_create E (request_app model (normalize_app raw)) = Inr (Some content)
        \<and> \<not> has_fence_open content \<longrightarrow>
        predict_app E (PyDict d) =
          (json_verdict E (normalize_app raw) (str_strip content),
           [request_app model (normalize_app raw)]))"
proof (intro conjI impI)
  assume "fence_search text = None"
  then show "extract_json_from_response text = str_strip text"
    by (simp add: extract_json_from_response_def)
next
  assume "\<not> has_fence_open text"
  then show "fence_search text = None" by (rule no_open_search)
  then show "extract_json_from_response text = str_strip text"
    by (simp add: extract_json_from_response_def)
next
  assume a: "dict_get d (py ''name'') (PyStr []) = PyStr raw \<and> normalize_app raw \<noteq> []
        \<and> dict_get d (py ''model'') (PyStr (py ''gpt-4.1-nano'')) = model
        \<and> model \<in> set (map PyStr VALID_MODELS)
        \<and> chat_create E (request_app model (normalize_app raw)) = Inr (Some content)
        \<and> \<not> has_fence_open content"
  then have "raw \<noteq> []" using normalize_empty(3) by auto
  with a have d: "truthy (PyDict d)" using name_present by simp
  from a have "\<not> has_fence_open (str_strip content)" using open_strip by blast
  then have "fence_search (str_strip content) = None" by (rule no_open_search)
  then have "extract_json_from_response (str_strip content) = str_strip content"
    by (simp add: extract_json_from_response_def strip_strip)
  with a d show "predict_app E (PyDict d) =
          (json_verdict E (normalize_app raw) (str_strip content),
           [request_app model (normalize_app raw)])"
    by (simp add: predict_app_def remote_outcome_def Let_def)
qed

theorem unfenced_reply_whole_witness:
  "\<not> has_fence_open reply_prose
   \<and> fence_search reply_prose = None
   \<and> extract_json_from_response reply_prose = reply_prose
   \<and> predict_app (replying reply_prose) (PyDict [(py ''name'', PyStr (py ''john doe''))]) =
       (json_verdict (replying reply_prose) (py ''john doe'') reply_prose,
        [request_app (PyStr (py ''gpt-4.1-nano'')) (py ''john doe'')])
   \<and> json_verdict (replying reply_prose) (py ''john doe'') reply_prose =
        Reply 500 [(py ''error'', PyStr (py ''Invalid JSON response format from model''))]"
proof -
  let ?d = "[(py ''name'', PyStr (py ''john doe''))]"
  let ?m = "PyStr (py ''gpt-4.1-nano'')"
  have no: "\<not> has_fence_open reply_prose"
    by (simp add: reply_prose_def py_def)
  have strip: "str_strip reply_prose = reply_prose"
    by (simp add: reply_prose_def py_def str_strip_def is_space_def)
  have hyps: "dict_get ?d (py ''name'') (PyStr []) = PyStr (py ''john doe'')"
    "normalize_app (py ''john doe'') \<noteq> []"
    "dict_get ?d (py ''model'') (PyStr (py ''gpt-4.1-nano'')) = ?m"
    "?m \<in> set (map PyStr VALID_MODELS)"
    "chat_create (replying reply_prose) (request_app ?m (normalize_app (py ''john doe''))) = Inr (Some reply_prose)"
    by (simp_all add: dict_get_def john_app VALID_MODELS_def replying_def sample_env_def)
       (simp_all add: py_def)
  have loads: "json_loads (replying reply_prose) reply_prose = None"
    by (simp add: replying_def sample_env_def sample_loads_def)
       (simp add: reply_realistic_def reply_realistic_reason_def reply_not_realistic_def
         reply_keyboard_def reply_brace_fence_def reply_prose_def reply_null_reason_def py_def)
  have verdict: "json_verdict (replying reply_prose) (py ''john doe'') reply_prose =
        Reply 500 [(py ''error'', PyStr (py ''Invalid JSON response format from model''))]"
    by (simp add: json_verdict_def loads error_reply_def)
  from no hyps verdict
    unfenced_reply_whole [of reply_prose ?d "py ''john doe''" ?m "replying reply_prose" reply_prose]
  show ?thesis
    by (simp only: strip john_app) blast
qed

end
